theory Spec2Isabelle
  imports Main "HOL-Library.Word"
begin

section \<open>JavaScript values used by the client\<close>

text \<open>
  A JavaScript string is a sequence of 16-bit UTF-16 code units. String literals of the
  source are written with \<open>lit\<close>, which maps each ASCII character to its code unit.
\<close>

type_synonym jsstring = "16 word list"

definition lit :: "string \<Rightarrow> jsstring" where
  "lit s = map (\<lambda>c. word_of_nat (of_char c)) s"

text \<open>
  A text prop of a component is a string, \<open>null\<close> or \<open>undefined\<close>
  (\<open>snapshot_content\<close> is \<open>null\<close> for a \<open>create\<close> snapshot).
\<close>

datatype jstext = Undefined | Null | Str jsstring

fun truthy :: "jstext \<Rightarrow> bool" where
  "truthy Undefined = False"
| "truthy Null = False"
| "truthy (Str s) = (s \<noteq> [])"

text \<open>\<open>t || ''\<close>: the left operand when it is truthy, the empty string otherwise.\<close>

definition or_empty :: "jstext \<Rightarrow> jsstring" where
  "or_empty t = (case t of Str s \<Rightarrow> (if truthy t then s else lit '''') | _ \<Rightarrow> lit '''')"

text \<open>
  \<open>StrWhiteSpaceChar\<close> of ECMAScript (white space and line terminators): what
  \<open>String.prototype.trim\<close> removes and what \<open>parseInt\<close> skips.
\<close>

definition is_ws :: "16 word \<Rightarrow> bool" where
  "is_ws c \<longleftrightarrow>
     c = 0x0009 \<or> c = 0x000A \<or> c = 0x000B \<or> c = 0x000C \<or> c = 0x000D \<or> c = 0x0020 \<or>
     c = 0x00A0 \<or> c = 0x1680 \<or> (0x2000 \<le> c \<and> c \<le> 0x200A) \<or> c = 0x2028 \<or>
     c = 0x2029 \<or> c = 0x202F \<or> c = 0x205F \<or> c = 0x3000 \<or> c = 0xFEFF"

definition trim :: "jsstring \<Rightarrow> jsstring" where
  "trim s = rev (dropWhile is_ws (rev (dropWhile is_ws s)))"


section \<open>components/DiffViewer.jsx\<close>

text \<open>
  One run of the line diff, as the \<open>diff\<close> package returns it: its text and the two
  flags \<open>added\<close> and \<open>removed\<close> (both unset for an equal run).
\<close>

record change =
  "value" :: jsstring
  added :: bool
  removed :: bool

text \<open>
  \<open>diffLines\<close> is imported from the package \<open>diff\<close>; the components below take it as the
  parameter \<open>diffLines\<close>.
\<close>

type_synonym differ = "jsstring \<Rightarrow> jsstring \<Rightarrow> change list"

datatype diff_mode = Unified | Split

datatype diff_view =
    UnifiedView "(string \<times> jsstring) list"
  | SplitView jsstring jsstring

definition DiffViewer :: "differ \<Rightarrow> jstext \<Rightarrow> jstext \<Rightarrow> diff_mode \<Rightarrow> diff_view" where
  "DiffViewer diffLines oldText newText mode =
     (let safeOld = or_empty oldText;
          safeNew = or_empty newText;
          diff = diffLines safeOld safeNew
      in if mode = Unified
         then UnifiedView
                (map (\<lambda>part.
                        (if added part then ''bg-green-900/30 text-green-200''
                         else if removed part then ''bg-red-900/30 text-red-200''
                         else ''text-slate-400'',
                         value part))
                     diff)
         else SplitView safeOld safeNew)"

definition SimpleDiff :: "differ \<Rightarrow> jstext \<Rightarrow> jstext \<Rightarrow> (string \<times> jsstring) list" where
  "SimpleDiff diffLines oldText newText =
     (let diff = diffLines (or_empty oldText) (or_empty newText)
      in map (\<lambda>part.
                (if added part
                 then ''bg-emerald-900/30 text-emerald-300 block border-l-2 border-emerald-500 pl-2''
                 else if removed part
                 then ''bg-rose-900/30 text-rose-300 block border-l-2 border-rose-500 pl-2''
                 else ''text-slate-400'',
                 value part))
             diff)"

text \<open>A missing text (\<open>null\<close> or \<open>undefined\<close>) replaced by the empty string.\<close>

fun fill_missing :: "jstext \<Rightarrow> jstext" where
  "fill_missing Undefined = Str []"
| "fill_missing Null = Str []"
| "fill_missing (Str s) = Str s"


section \<open>The built-in \<open>encodeURIComponent\<close>\<close>

text \<open>
  The characters \<open>encodeURIComponent\<close> leaves as they are: letters, digits and
  \<open>- _ . ! ~ * ' ( )\<close>.
\<close>

definition unescaped :: "16 word \<Rightarrow> bool" where
  "unescaped c \<longleftrightarrow>
     (0x41 \<le> c \<and> c \<le> 0x5A) \<or> (0x61 \<le> c \<and> c \<le> 0x7A) \<or> (0x30 \<le> c \<and> c \<le> 0x39) \<or>
     c = 0x2D \<or> c = 0x5F \<or> c = 0x2E \<or> c = 0x21 \<or> c = 0x7E \<or> c = 0x2A \<or>
     c = 0x27 \<or> c = 0x28 \<or> c = 0x29"

text \<open>An octet as \<open>%XX\<close>, with upper-case hexadecimal digits.\<close>

definition hex_digit :: "nat \<Rightarrow> 16 word" where
  "hex_digit n = (if n < 10 then word_of_nat (0x30 + n) else word_of_nat (0x41 + (n - 10)))"

definition percent :: "nat \<Rightarrow> jsstring" where
  "percent octet = [0x25, hex_digit (octet div 16), hex_digit (octet mod 16)]"

text \<open>The UTF-8 octets of a code point.\<close>

definition utf8 :: "nat \<Rightarrow> nat list" where
  "utf8 cp =
     (if cp < 0x80 then [cp]
      else if cp < 0x800 then [0xC0 + cp div 64, 0x80 + cp mod 64]
      else if cp < 0x10000 then [0xE0 + cp div 4096, 0x80 + cp div 64 mod 64, 0x80 + cp mod 64]
      else [0xF0 + cp div 262144, 0x80 + cp div 4096 mod 64, 0x80 + cp div 64 mod 64,
            0x80 + cp mod 64])"

text \<open>Leading and trailing surrogates, and the code point of a surrogate pair.\<close>

definition is_lead :: "16 word \<Rightarrow> bool" where
  "is_lead c \<longleftrightarrow> 0xD800 \<le> c \<and> c \<le> 0xDBFF"

definition is_trail :: "16 word \<Rightarrow> bool" where
  "is_trail c \<longleftrightarrow> 0xDC00 \<le> c \<and> c \<le> 0xDFFF"

definition pair_code_point :: "16 word \<Rightarrow> 16 word \<Rightarrow> nat" where
  "pair_code_point lead trail = (unat lead - 0xD800) * 0x400 + (unat trail - 0xDC00) + 0x10000"

datatype js_error = URIError

definition escape :: "nat \<Rightarrow> jsstring" where
  "escape cp = concat (map percent (utf8 cp))"

text \<open>
  \<open>encodeURIComponent\<close>, after the \<open>Encode\<close> operation of ECMAScript: an unescaped
  character is copied; otherwise the code point at the position is read, an unpaired
  surrogate throws \<open>URIError\<close>, and each UTF-8 octet of the code point is written as
  \<open>%XX\<close>.
\<close>

fun encodeURIComponent :: "jsstring \<Rightarrow> js_error + jsstring" where
  "encodeURIComponent [] = Inr []"
| "encodeURIComponent (c # cs) =
     (if unescaped c then
        (case encodeURIComponent cs of Inl e \<Rightarrow> Inl e | Inr r \<Rightarrow> Inr (c # r))
      else if is_trail c then Inl URIError
      else if is_lead c then
        (case cs of
           [] \<Rightarrow> Inl URIError
         | d # ds \<Rightarrow>
             if is_trail d then
               (case encodeURIComponent ds of
                  Inl e \<Rightarrow> Inl e
                | Inr r \<Rightarrow> Inr (escape (pair_code_point c d) @ r))
             else Inl URIError)
      else
        (case encodeURIComponent cs of
           Inl e \<Rightarrow> Inl e
         | Inr r \<Rightarrow> Inr (escape (unat c) @ r)))"


section \<open>lib/api.js\<close>

text \<open>
  Every function of \<open>api.js\<close> that puts an id into the path or that a handler below
  calls, with its arguments. A handler's requests are recorded in the order it issues them.
\<close>

datatype api_call =
    getSnapshots jsstring
  | getDiff jsstring jsstring
  | rollbackResource jsstring jsstring
  | approveSnapshot jsstring jsstring
  | clearSession jsstring
  | getRelationDetail jsstring jsstring
  | getEntityInfo jsstring
  | getState jsstring
  | deleteState jsstring
  | deleteEntity jsstring
  | deleteDirectEdge jsstring jsstring
  | deleteRelayEdge jsstring
  | getChapter jsstring jsstring jsstring
  | getOrphanStates jsstring int
  | deleteStatesBatch "jsstring list"
  | getOrphanEntities int
  | deleteEntitiesBatch "jsstring list"
  | updateEntity jsstring jsstring "jsstring option"
  | updateDirectEdge jsstring jsstring jsstring "jsstring option"
  | updateChapter jsstring jsstring jsstring jsstring

text \<open>\<open>encodeId\<close>: URI encoding for ids which might contain special characters.\<close>

definition encodeId :: "jsstring \<Rightarrow> js_error + jsstring" where
  "encodeId ident = encodeURIComponent ident"








section \<open>The receiving side of a request path\<close>

text \<open>
  Modelled from the spec: the unescaping of a path segment on the receiving side, which is
  not among the sources. It is the inverse transformation that ECMAScript defines as
  \<open>decodeURIComponent\<close>: every \<open>%XX\<close> is read as an octet (a malformed escape is a
  \<open>URIError\<close>), an octet below \<open>0x80\<close> is its character, and a longer sequence must be
  the valid UTF-8 encoding of a code point (not overlong, not a surrogate, at most
  \<open>0x10FFFF\<close>), which is written in UTF-16.
\<close>

definition hex_value :: "16 word \<Rightarrow> nat option" where
  "hex_value c =
     (if 0x30 \<le> c \<and> c \<le> 0x39 then Some (unat c - 0x30)
      else if 0x41 \<le> c \<and> c \<le> 0x46 then Some (unat c - 0x41 + 10)
      else if 0x61 \<le> c \<and> c \<le> 0x66 then Some (unat c - 0x61 + 10)
      else None)"

datatype item = Lit "16 word" | Octet nat

fun unescape :: "jsstring \<Rightarrow> item list option" where
  "unescape [] = Some []"
| "unescape (c # cs) =
     (if c = 0x25 then
        (case cs of
           h # l # rest \<Rightarrow>
             (case (hex_value h, hex_value l) of
                (Some a, Some b) \<Rightarrow> map_option ((#) (Octet (16 * a + b))) (unescape rest)
              | _ \<Rightarrow> None)
         | _ \<Rightarrow> None)
      else map_option ((#) (Lit c)) (unescape cs))"

definition continuation :: "nat \<Rightarrow> bool" where
  "continuation b \<longleftrightarrow> 0x80 \<le> b \<and> b < 0xC0"

definition utf8_decode :: "nat list \<Rightarrow> nat option" where
  "utf8_decode octets =
     (case octets of
        [b0, b1] \<Rightarrow>
          (let cp = (b0 - 0xC0) * 64 + (b1 - 0x80)
           in if continuation b1 \<and> 0x80 \<le> cp then Some cp else None)
      | [b0, b1, b2] \<Rightarrow>
          (let cp = (b0 - 0xE0) * 4096 + (b1 - 0x80) * 64 + (b2 - 0x80)
           in if continuation b1 \<and> continuation b2 \<and> 0x800 \<le> cp
                 \<and> \<not> (0xD800 \<le> cp \<and> cp \<le> 0xDFFF)
              then Some cp else None)
      | [b0, b1, b2, b3] \<Rightarrow>
          (let cp = (b0 - 0xF0) * 262144 + (b1 - 0x80) * 4096 + (b2 - 0x80) * 64 + (b3 - 0x80)
           in if continuation b1 \<and> continuation b2 \<and> continuation b3
                 \<and> 0x10000 \<le> cp \<and> cp \<le> 0x10FFFF
              then Some cp else None)
      | _ \<Rightarrow> None)"

definition utf16 :: "nat \<Rightarrow> jsstring" where
  "utf16 cp =
     (if cp < 0x10000 then [word_of_nat cp]
      else [word_of_nat (0xD800 + (cp - 0x10000) div 0x400),
            word_of_nat (0xDC00 + (cp - 0x10000) mod 0x400)])"

definition octets_needed :: "nat \<Rightarrow> nat option" where
  "octets_needed b =
     (if b < 0x80 then Some 1
      else if 0xC0 \<le> b \<and> b < 0xE0 then Some 2
      else if 0xE0 \<le> b \<and> b < 0xF0 then Some 3
      else if 0xF0 \<le> b \<and> b < 0xF8 then Some 4
      else None)"

fun octets_of :: "item list \<Rightarrow> nat list option" where
  "octets_of [] = Some []"
| "octets_of (Octet b # its) = map_option ((#) b) (octets_of its)"
| "octets_of (Lit c # its) = None"

function decode_items :: "item list \<Rightarrow> jsstring option" where
  "decode_items [] = Some []"
| "decode_items (Lit c # its) = map_option ((#) c) (decode_items its)"
| "decode_items (Octet b # its) =
     (case octets_needed b of
        None \<Rightarrow> None
      | Some n \<Rightarrow>
          if n = 1 then map_option ((#) (word_of_nat b)) (decode_items its)
          else if length its < n - 1 then None
          else
            (case octets_of (take (n - 1) its) of
               None \<Rightarrow> None
             | Some others \<Rightarrow>
                 (case utf8_decode (b # others) of
                    None \<Rightarrow> None
                  | Some cp \<Rightarrow> map_option ((@) (utf16 cp)) (decode_items (drop (n - 1) its)))))"
  by pat_completeness auto
termination
  by (relation "measure length") auto

text \<open>
  Modelled from the spec: the unescaping the receiving side applies to a path segment
  (\<open>decodeURIComponent\<close>), which is not among the sources: the escapes are read, then the
  octets are decoded; any failure is a \<open>URIError\<close>.
\<close>

definition decodeURIComponent :: "jsstring \<Rightarrow> js_error + jsstring" where
  "decodeURIComponent s =
     (case unescape s of
        None \<Rightarrow> Inl URIError
      | Some its \<Rightarrow> (case decode_items its of None \<Rightarrow> Inl URIError | Some r \<Rightarrow> Inr r))"

text \<open>The segments of a path: the pieces between the \<open>/\<close> characters.\<close>

fun segments_from :: "jsstring \<Rightarrow> jsstring \<Rightarrow> jsstring list" where
  "segments_from cur [] = [cur]"
| "segments_from cur (c # cs) =
     (if c = 0x2F then cur # segments_from [] cs else segments_from (cur @ [c]) cs)"


text \<open>A Unicode scalar value: a code point that is not a surrogate.\<close>

definition scalar :: "nat \<Rightarrow> bool" where
  "scalar cp \<longleftrightarrow> cp < 0x110000 \<and> \<not> (0xD800 \<le> cp \<and> cp \<le> 0xDFFF)"



section \<open>The URL parser of the browser\<close>

text \<open>
  \<open>XMLHttpRequest\<close> does not send the string it is given: it parses it as a URL (the URL
  standard), relative to the page. For a string that starts with \<open>/\<close>: leading and trailing
  C0 controls and spaces are stripped and every tab and newline is removed; the path runs
  up to the first \<open>?\<close> or \<open>#\<close>; \<open>/\<close> and \<open>\\<close> separate its segments; a code point of
  the path percent-encode set is written as the escapes of its UTF-8 octets, an unpaired
  surrogate as those of U+FFFD; a segment \<open>.\<close> (also written \<open>%2e\<close>) is dropped and a segment
  \<open>..\<close> removes the segment before it.
\<close>

definition c0_or_space :: "16 word \<Rightarrow> bool" where
  "c0_or_space c \<longleftrightarrow> c \<le> 0x20"

definition tab_or_newline :: "16 word \<Rightarrow> bool" where
  "tab_or_newline c \<longleftrightarrow> c = 0x09 \<or> c = 0x0A \<or> c = 0x0D"

definition url_input :: "jsstring \<Rightarrow> jsstring" where
  "url_input s =
     filter (\<lambda>c. \<not> tab_or_newline c)
       (rev (dropWhile c0_or_space (rev (dropWhile c0_or_space s))))"

definition path_percent_encode_set :: "16 word \<Rightarrow> bool" where
  "path_percent_encode_set c \<longleftrightarrow>
     c \<le> 0x20 \<or> c = 0x22 \<or> c = 0x23 \<or> c = 0x3C \<or> c = 0x3E \<or> c = 0x3F \<or> c = 0x5E \<or>
     c = 0x60 \<or> c = 0x7B \<or> c = 0x7D \<or> 0x7E < c"

fun url_path :: "jsstring \<Rightarrow> jsstring \<Rightarrow> jsstring list" where
  "url_path cur [] = [cur]"
| "url_path cur (c # cs) =
     (if c = 0x2F \<or> c = 0x5C then cur # url_path [] cs
      else if c = 0x3F \<or> c = 0x23 then [cur]
      else if is_lead c then
        (case cs of
           [] \<Rightarrow> [cur @ escape 0xFFFD]
         | d # ds \<Rightarrow>
             if is_trail d then url_path (cur @ escape (pair_code_point c d)) ds
             else url_path (cur @ escape 0xFFFD) cs)
      else if is_trail c then url_path (cur @ escape 0xFFFD) cs
      else if path_percent_encode_set c then url_path (cur @ escape (unat c)) cs
      else url_path (cur @ [c]) cs)"

definition single_dot :: "jsstring \<Rightarrow> bool" where
  "single_dot s \<longleftrightarrow> s = lit ''.'' \<or> s = lit ''%2e'' \<or> s = lit ''%2E''"

definition double_dot :: "jsstring \<Rightarrow> bool" where
  "double_dot s \<longleftrightarrow>
     s = lit ''..'' \<or> s = lit ''.%2e'' \<or> s = lit ''.%2E'' \<or> s = lit ''%2e.'' \<or>
     s = lit ''%2E.'' \<or> s = lit ''%2e%2e'' \<or> s = lit ''%2e%2E'' \<or> s = lit ''%2E%2e'' \<or>
     s = lit ''%2E%2E''"

fun remove_dots :: "jsstring list \<Rightarrow> jsstring list \<Rightarrow> jsstring list" where
  "remove_dots path [] = path"
| "remove_dots path [s] =
     (if double_dot s then butlast path @ [[]]
      else if single_dot s then path @ [[]]
      else path @ [s])"
| "remove_dots path (s # ss) =
     (if double_dot s then remove_dots (butlast path) ss
      else if single_dot s then remove_dots path ss
      else remove_dots (path @ [s]) ss)"

text \<open>
  The path sent for a URL string that starts with \<open>/\<close>, as all the URLs of \<open>api.js\<close> do:
  its segments, each after a \<open>/\<close>.
\<close>

definition wire_segments :: "jsstring \<Rightarrow> jsstring list" where
  "wire_segments url = remove_dots [] (url_path [] (tl (url_input url)))"

definition on_wire :: "jsstring \<Rightarrow> jsstring" where
  "on_wire url = concat (map ((#) 0x2F) (wire_segments url))"



section \<open>Effects of the handlers\<close>

text \<open>
  What an awaited call gives back: the promise resolves, or it rejects with an error whose
  \<open>message\<close> the handlers show.
\<close>

datatype 'a response = Resolved 'a | Rejected jsstring

text \<open>
  The confirmation message of \<open>handleDeleteStates\<close>, as the sequence of the pieces the
  handler appends: the header with the number of selected states, the warning about
  CURRENT versions, the first five selected ids, and the count of the others.
\<close>

datatype message_part =
    DeleteHeader nat
  | CurrentWarning
  | SelectedIds "jsstring list"
  | AndMore nat

text \<open>The texts of \<open>alert\<close> and of \<open>confirm\<close>, one constructor for each text of the source.\<close>

datatype notice =
    ContentEmpty
  | MissingChapterInfo
  | SaveFailed jsstring
  | CannotDeleteState int
  | DeleteStateFailed jsstring
  | CannotDeleteEntity
  | EntityDeleted
  | DeleteEntityFailed jsstring
  | RollbackFailed jsstring

datatype question =
    DeleteStatesQuestion "message_part list"
  | DeleteVersionQuestion "int option"
  | DeleteEntityQuestion jsstring
  | RollbackQuestion jsstring

text \<open>
  What a handler does besides updating its component's state, in the order it does it:
  an \<open>alert\<close>, a \<open>confirm\<close>, a request (the call of a function of \<open>api.js\<close>), the call
  of the component's reload function (\<open>loadVersions\<close>, \<open>loadData\<close>, \<open>loadSnapshots\<close>,
  which is not awaited), a navigation. \<open>TypeError\<close> is the exception of reading a
  property of \<open>null\<close>.
\<close>

datatype effect =
    Alert notice
  | Confirm question
  | Request api_call
  | Reload
  | Navigate jsstring
  | TypeError

definition requests :: "effect list \<Rightarrow> api_call list" where
  "requests effects = concat (map (\<lambda>e. case e of Request c \<Rightarrow> [c] | _ \<Rightarrow> []) effects)"


section \<open>features/maintenance: MaintenancePage\<close>

text \<open>
  \<open>parseInt(string)\<close> with no radix, after ECMAScript: leading white space is skipped, a
  sign is read, a \<open>0x\<close>/\<open>0X\<close> prefix selects radix 16, and the longest prefix of
  digits is the value; \<open>None\<close> is \<open>NaN\<close> (no digit). The result is the mathematical
  integer; JavaScript rounds it to a double, which leaves every integer up to \<open>2^53\<close>
  unchanged and is monotone, so a comparison with 500 or with 1 is the same on both.
\<close>

definition digit_value :: "nat \<Rightarrow> 16 word \<Rightarrow> nat option" where
  "digit_value R c =
     (let v = (if 0x30 \<le> c \<and> c \<le> 0x39 then Some (unat c - 0x30)
               else if 0x61 \<le> c \<and> c \<le> 0x7A then Some (unat c - 0x61 + 10)
               else if 0x41 \<le> c \<and> c \<le> 0x5A then Some (unat c - 0x41 + 10)
               else None)
      in case v of Some d \<Rightarrow> (if d < R then Some d else None) | None \<Rightarrow> None)"

fun radix_value :: "nat \<Rightarrow> nat \<Rightarrow> jsstring \<Rightarrow> nat" where
  "radix_value R acc [] = acc"
| "radix_value R acc (c # cs) =
     (case digit_value R c of Some d \<Rightarrow> radix_value R (acc * R + d) cs | None \<Rightarrow> acc)"

definition parseInt :: "jsstring \<Rightarrow> int option" where
  "parseInt inputString =
     (let S = dropWhile is_ws inputString;
          sign = (if take 1 S = lit ''-'' then - 1 else 1 :: int);
          S1 = (if take 1 S = lit ''+'' \<or> take 1 S = lit ''-'' then drop 1 S else S);
          hex = (take 2 S1 = lit ''0x'' \<or> take 2 S1 = lit ''0X'');
          R = (if hex then 16 else 10);
          S2 = (if hex then drop 2 S1 else S1)
      in case S2 of
           [] \<Rightarrow> None
         | c # cs \<Rightarrow>
             (case digit_value R c of
                None \<Rightarrow> None
              | Some d \<Rightarrow> Some (sign * int (radix_value R 0 S2))))"

text \<open>
  The \<open>onChange\<close> expression of both limit fields:
  \<open>Math.max(1, Math.min(500, parseInt(e.target.value) || 100))\<close>.
  \<open>NaN\<close> and \<open>0\<close> are falsy, so \<open>||\<close> replaces them by 100.
\<close>

definition limit_of_input :: "jsstring \<Rightarrow> int" where
  "limit_of_input v =
     max 1 (min 500 (case parseInt v of None \<Rightarrow> 100 | Some n \<Rightarrow> (if n = 0 then 100 else n)))"

text \<open>One row of the orphan-state query result.\<close>

record orphan_state =
  os_state_id :: jsstring
  os_entity_id :: jsstring
  os_version :: int
  os_is_current :: bool
  os_in_count :: int
  os_out_count :: int

text \<open>The result of a batch deletion.\<close>

record batch_result =
  deleted_count :: int
  failed_count :: int
  failed :: "(jsstring \<times> jsstring) list"

text \<open>
  The state of the page (its \<open>useState\<close> cells). \<open>orphanStates\<close> is \<open>null\<close> or the query
  result, of which \<open>states\<close> is kept; a \<open>Set\<close> is the list of its elements in insertion
  order.
\<close>

record maintenance_page =
  stateMode :: jsstring
  stateLimit :: int
  stateDeleting :: bool
  stateError :: "jsstring option"
  orphanStates :: "orphan_state list option"
  selectedStateIds :: "jsstring list"
  stateDeleteResult :: "batch_result option"
  entityLimit :: int

definition initial_maintenance_page :: maintenance_page where
  "initial_maintenance_page =
     \<lparr> stateMode = lit ''in_zero'', stateLimit = 100, stateDeleting = False,
       stateError = None, orphanStates = None, selectedStateIds = [],
       stateDeleteResult = None, entityLimit = 100 \<rparr>"

text \<open>The two limit fields: what typing \<open>v\<close> into each stores.\<close>

datatype limit_input = StateLimitInput jsstring | EntityLimitInput jsstring

fun limit_onChange :: "maintenance_page \<Rightarrow> limit_input \<Rightarrow> maintenance_page" where
  "limit_onChange p (StateLimitInput v) = p\<lparr>stateLimit := limit_of_input v\<rparr>"
| "limit_onChange p (EntityLimitInput v) = p\<lparr>entityLimit := limit_of_input v\<rparr>"

definition after_inputs :: "limit_input list \<Rightarrow> maintenance_page" where
  "after_inputs evs = foldl limit_onChange initial_maintenance_page evs"

text \<open>The requests of \<open>handleSearchStates\<close> and \<open>handleSearchEntities\<close>.\<close>

definition handleSearchStates_call :: "maintenance_page \<Rightarrow> api_call" where
  "handleSearchStates_call p = getOrphanStates (stateMode p) (stateLimit p)"

definition handleSearchEntities_call :: "maintenance_page \<Rightarrow> api_call" where
  "handleSearchEntities_call p = getOrphanEntities (entityLimit p)"

definition hasCurrent :: "orphan_state list \<Rightarrow> jsstring list \<Rightarrow> bool" where
  "hasCurrent states selected =
     list_ex (\<lambda>s. os_state_id s \<in> set selected \<and> os_is_current s) states"

definition confirm_message :: "orphan_state list \<Rightarrow> jsstring list \<Rightarrow> message_part list" where
  "confirm_message states selected =
     [DeleteHeader (length selected)]
     @ (if hasCurrent states selected then [CurrentWarning] else [])
     @ [SelectedIds (take 5 selected)]
     @ (if length selected > 5 then [AndMore (length selected - 5)] else [])"

text \<open>\<open>handleDeleteStates\<close>: the state it leaves and what it did.\<close>

definition handleDeleteStates ::
  "bool \<Rightarrow> batch_result response \<Rightarrow> orphan_state list response \<Rightarrow> maintenance_page
     \<Rightarrow> maintenance_page \<times> effect list" where
  "handleDeleteStates confirmed batch_response search_response p =
     (if length (selectedStateIds p) = 0 then (p, [])
      else case orphanStates p of
        None \<Rightarrow> (p, [TypeError])
      | Some states \<Rightarrow>
          (let message = DeleteStatesQuestion (confirm_message states (selectedStateIds p)) in
           if \<not> confirmed then (p, [Confirm message])
           else
             (let p1 = p\<lparr>stateDeleting := True, stateError := None, stateDeleteResult := None\<rparr>;
                  call1 = Request (deleteStatesBatch (selectedStateIds p))
              in case batch_response of
                   Rejected msg \<Rightarrow>
                     (p1\<lparr>stateError := Some msg, stateDeleting := False\<rparr>,
                      [Confirm message, call1])
                 | Resolved result \<Rightarrow>
                     (let p2 = p1\<lparr>stateDeleteResult := Some result\<rparr> in
                      if deleted_count result > 0
                      then
                        (let call2 = Request (getOrphanStates (stateMode p) (stateLimit p))
                         in case search_response of
                              Rejected msg \<Rightarrow>
                                (p2\<lparr>stateError := Some msg, stateDeleting := False\<rparr>,
                                 [Confirm message, call1, call2])
                            | Resolved data \<Rightarrow>
                                (p2\<lparr>orphanStates := Some data, selectedStateIds := [],
                                    stateDeleting := False\<rparr>,
                                 [Confirm message, call1, call2]))
                      else (p2\<lparr>stateDeleting := False\<rparr>, [Confirm message, call1])))))"

text \<open>The confirmation message the handler shows, if it shows one.\<close>

definition shown_message :: "effect list \<Rightarrow> message_part list option" where
  "shown_message effects =
     (case effects of
        Confirm (DeleteStatesQuestion message) # _ \<Rightarrow> Some message
      | _ \<Rightarrow> None)"

definition contains_current_warning :: "effect list \<Rightarrow> bool" where
  "contains_current_warning effects =
     (case shown_message effects of None \<Rightarrow> False | Some message \<Rightarrow> CurrentWarning \<in> set message)"


section \<open>features/memory: EntityDetail\<close>

text \<open>
  A state as the server sends it (the state read shape). \<open>in_count\<close> and \<open>out_count\<close>
  are absent (\<open>None\<close>) when the response does not carry a number there.
\<close>

record state_info =
  state_id :: jsstring
  entity_id :: jsstring
  version :: int
  name :: jsstring
  content :: jsstring
  in_count :: "int option"
  out_count :: "int option"

text \<open>An outbound direct edge of the entity, as \<open>getEntityInfo\<close> lists it.\<close>

record edge_info =
  target_entity_id :: jsstring
  target_name :: jsstring
  relation :: jsstring
  viewer_version :: int

record state_stats =
  stats_in_count :: int
  stats_out_count :: int

text \<open>
  The state of the component: the route parameter \<open>entityId\<close> and the \<open>useState\<close>
  cells. \<open>currentContent\<close> is the content of the selected state; \<open>versions\<close> is the
  history, newest first.
\<close>

record entity_detail =
  entityId :: jsstring
  currentContent :: "state_info option"
  versions :: "state_info list"
  selectedStateId :: "jsstring option"
  stateStats :: "state_stats option"
  contentError :: "jsstring option"
  loading :: bool
  outboundEdges :: "edge_info list"
  isEditing :: bool
  editContent :: jsstring
  editName :: jsstring
  saving :: bool

text \<open>
  \<open>loadStateDetails\<close> before \<open>getState\<close> has answered: the error and the stats are
  cleared, the content shown stays the one of the state displayed before.
\<close>

definition loadStateDetails_begin :: "entity_detail \<Rightarrow> entity_detail" where
  "loadStateDetails_begin c = c\<lparr>contentError := None, stateStats := None\<rparr>"

text \<open>
  \<open>loadStateDetails\<close> when \<open>getState\<close> has answered and no later request superseded it:
  the content shown is the state received, the stats are its counts (0 where the response
  has no number).
\<close>

definition stats_of :: "state_info \<Rightarrow> state_stats" where
  "stats_of contentData =
     \<lparr> stats_in_count = (case in_count contentData of Some n \<Rightarrow> n | None \<Rightarrow> 0),
       stats_out_count = (case out_count contentData of Some n \<Rightarrow> n | None \<Rightarrow> 0) \<rparr>"

definition loadStateDetails :: "state_info response \<Rightarrow> entity_detail \<Rightarrow> entity_detail" where
  "loadStateDetails resp c =
     (case resp of
        Resolved contentData \<Rightarrow>
          (loadStateDetails_begin c)
            \<lparr>currentContent := Some contentData, contentError := None,
             stateStats := Some (stats_of contentData), loading := False\<rparr>
      | Rejected msg \<Rightarrow>
          (loadStateDetails_begin c)
            \<lparr>currentContent := None, contentError := Some msg, loading := False\<rparr>)"

text \<open>
  Choosing a version in the selector sets \<open>selectedStateId\<close>; the effect on
  \<open>selectedStateId\<close> then loads that state's details. \<open>select_version_begin\<close> is the
  component while the details are being loaded, \<open>select_version\<close> once they have arrived.
\<close>

definition select_version_begin :: "jsstring \<Rightarrow> entity_detail \<Rightarrow> entity_detail" where
  "select_version_begin sid c =
     (let c1 = c\<lparr>selectedStateId := Some sid\<rparr>
      in if sid \<noteq> [] then loadStateDetails_begin c1 else c1)"

definition select_version :: "jsstring \<Rightarrow> state_info response \<Rightarrow> entity_detail \<Rightarrow> entity_detail" where
  "select_version sid resp c =
     (let c1 = c\<lparr>selectedStateId := Some sid\<rparr>
      in if sid \<noteq> [] then loadStateDetails resp c1 else c1)"

text \<open>
  The \<open>in_count\<close> of the selected state, as the version history of the entity carries it.
\<close>

definition selected_in_count :: "entity_detail \<Rightarrow> int option" where
  "selected_in_count c =
     (case selectedStateId c of
        None \<Rightarrow> None
      | Some sid \<Rightarrow>
          (case find (\<lambda>v. state_id v = sid) (versions c) of
             None \<Rightarrow> None
           | Some v \<Rightarrow> in_count v))"

definition handleDeleteState ::
  "bool \<Rightarrow> unit response \<Rightarrow> entity_detail \<Rightarrow> entity_detail \<times> effect list" where
  "handleDeleteState confirmed resp c =
     (case selectedStateId c of
        None \<Rightarrow> (c, [])
      | Some sid \<Rightarrow>
          if sid = [] then (c, [])
          else
            (case (case stateStats c of
                     Some st \<Rightarrow> (if stats_in_count st > 0 then Some (stats_in_count st) else None)
                   | None \<Rightarrow> None) of
               Some n \<Rightarrow> (c, [Alert (CannotDeleteState n)])
             | None \<Rightarrow>
                 (let ask = Confirm (DeleteVersionQuestion (map_option version (currentContent c)))
                  in if \<not> confirmed then (c, [ask])
                     else case resp of
                            Resolved _ \<Rightarrow> (c, [ask, Request (deleteState sid), Reload])
                          | Rejected msg \<Rightarrow>
                              (c, [ask, Request (deleteState sid), Alert (DeleteStateFailed msg)]))))"

definition handleDeleteEntity ::
  "bool \<Rightarrow> unit response \<Rightarrow> entity_detail \<Rightarrow> entity_detail \<times> effect list" where
  "handleDeleteEntity confirmed resp c =
     (if length (versions c) > 0 then (c, [Alert CannotDeleteEntity])
      else
        (let ask = Confirm (DeleteEntityQuestion (entityId c))
         in if \<not> confirmed then (c, [ask])
            else case resp of
                   Resolved _ \<Rightarrow>
                     (c, [ask, Request (deleteEntity (entityId c)), Alert EntityDeleted,
                          Navigate (lit ''/memory/catalog'')])
                 | Rejected msg \<Rightarrow>
                     (c, [ask, Request (deleteEntity (entityId c)), Alert (DeleteEntityFailed msg)])))"

text \<open>
  What the component renders above the detail view: the view with the
  \<open>Delete Entity\<close> button is the one shown for an entity without states.
\<close>

definition shows_delete_entity_button :: "entity_detail \<Rightarrow> bool" where
  "shows_delete_entity_button c \<longleftrightarrow> \<not> loading c \<and> length (versions c) = 0"

definition saveEdit :: "unit response \<Rightarrow> entity_detail \<Rightarrow> entity_detail \<times> effect list" where
  "saveEdit resp c =
     (if trim (editContent c) = [] then (c, [Alert ContentEmpty])
      else
        (let nameChanged = (Some (editName c) \<noteq> map_option name (currentContent c));
             call = Request (updateEntity (entityId c) (editContent c)
                               (if nameChanged then Some (editName c) else None))
         in case resp of
              Resolved _ \<Rightarrow> (c\<lparr>isEditing := False, saving := False\<rparr>, [call, Reload])
            | Rejected msg \<Rightarrow> (c\<lparr>saving := False\<rparr>, [call, Alert (SaveFailed msg)])))"

text \<open>
  The class of the version tag of an outbound edge: \<open>text-amber-500/70\<close> highlights it.
  The component renders the edges only when \<open>currentContent\<close> is set.
\<close>

definition edge_version_class :: "state_info \<Rightarrow> edge_info \<Rightarrow> string" where
  "edge_version_class currentContent' edge =
     (if viewer_version edge = version currentContent' then ''text-slate-600''
      else ''text-amber-500/70'')"

definition render_outboundEdges :: "entity_detail \<Rightarrow> (edge_info \<times> string) list option" where
  "render_outboundEdges c =
     (case currentContent c of
        None \<Rightarrow> None
      | Some cc \<Rightarrow> Some (map (\<lambda>edge. (edge, edge_version_class cc edge)) (outboundEdges c)))"

definition highlighted :: "entity_detail \<Rightarrow> edge_info \<Rightarrow> bool" where
  "highlighted c edge \<longleftrightarrow>
     (case render_outboundEdges c of
        None \<Rightarrow> False
      | Some rows \<Rightarrow> (edge, ''text-amber-500/70'') \<in> set rows)"

text \<open>
  The current version of the viewer entity, in the words of the specification: the
  highest version among the surviving states of its history.
\<close>

definition current_version :: "state_info list \<Rightarrow> int option" where
  "current_version history =
     (if history = [] then None else Some (Max (set (map version history))))"


section \<open>features/memory: RelationDetail\<close>

record direct_edge =
  direct_relation :: jsstring
  direct_content :: jsstring
  direct_viewer_version :: int

text \<open>
  The route parameters \<open>viewerId\<close> and \<open>targetId\<close> and the \<open>useState\<close> cells; \<open>data\<close>
  is \<open>null\<close> or the relation read, of which the \<open>direct\<close> edge is kept (\<open>None\<close> when
  \<open>data?.direct\<close> is missing).
\<close>

record relation_detail =
  rel_viewerId :: jsstring
  rel_targetId :: jsstring
  rel_direct :: "direct_edge option"
  rel_isEditing :: bool
  rel_editContent :: jsstring
  rel_editRelation :: jsstring
  rel_saving :: bool

definition saveEdit_relation ::
  "unit response \<Rightarrow> relation_detail \<Rightarrow> relation_detail \<times> effect list" where
  "saveEdit_relation resp c =
     (if trim (rel_editContent c) = [] then (c, [Alert ContentEmpty])
      else
        (let relationChanged =
               (Some (rel_editRelation c) \<noteq> map_option direct_relation (rel_direct c));
             call = Request (updateDirectEdge (rel_viewerId c) (rel_targetId c) (rel_editContent c)
                               (if relationChanged then Some (rel_editRelation c) else None))
         in case resp of
              Resolved _ \<Rightarrow> (c\<lparr>rel_isEditing := False, rel_saving := False\<rparr>, [call, Reload])
            | Rejected msg \<Rightarrow> (c\<lparr>rel_saving := False\<rparr>, [call, Alert (SaveFailed msg)])))"


section \<open>features/memory/ChapterDetail.jsx\<close>

text \<open>
  The route parameters are strings or \<open>undefined\<close> (\<open>None\<close>); \<open>mounted\<close> is
  \<open>mountedRef.current\<close> when the request has answered.
\<close>

record chapter_detail =
  ch_viewerId :: "jsstring option"
  ch_targetId :: "jsstring option"
  ch_chapterName :: "jsstring option"
  ch_data :: "state_info option"
  ch_isEditing :: bool
  ch_editContent :: jsstring
  ch_saving :: bool
  ch_mounted :: bool

text \<open>\<open>viewerId && targetId && chapterName\<close>: all three present and not empty.\<close>

definition param_truthy :: "jsstring option \<Rightarrow> bool" where
  "param_truthy v = (case v of None \<Rightarrow> False | Some s \<Rightarrow> s \<noteq> [])"

definition canEdit :: "chapter_detail \<Rightarrow> bool" where
  "canEdit c \<longleftrightarrow>
     param_truthy (ch_viewerId c) \<and> param_truthy (ch_targetId c) \<and> param_truthy (ch_chapterName c)"

definition saveEdit_chapter ::
  "unit response \<Rightarrow> chapter_detail \<Rightarrow> chapter_detail \<times> effect list" where
  "saveEdit_chapter resp c =
     (if trim (ch_editContent c) = [] then (c, [Alert ContentEmpty])
      else if \<not> canEdit c then (c, [Alert MissingChapterInfo])
      else
        (case (ch_viewerId c, ch_targetId c, ch_chapterName c) of
           (Some viewerId, Some targetId, Some chapterName) \<Rightarrow>
             (let call = Request (updateChapter viewerId targetId chapterName (ch_editContent c));
                  saving' = (if ch_mounted c then False else True)
              in case resp of
                   Resolved _ \<Rightarrow> (c\<lparr>ch_isEditing := False, ch_saving := saving'\<rparr>, [call, Reload])
                 | Rejected msg \<Rightarrow> (c\<lparr>ch_saving := saving'\<rparr>, [call, Alert (SaveFailed msg)]))
         | _ \<Rightarrow> (c, [Alert MissingChapterInfo])))"

text \<open>
  The life of the component. It is mounted with its route parameters, not editing and
  without data. The main view, with the Edit and Save buttons, is rendered only when
  \<open>data\<close> is set; the Edit button only when not editing and \<open>canEdit\<close>; the Save and
  Cancel buttons only when editing, and they are disabled while saving. A change of the
  route parameters resets the edit mode and reloads.
\<close>

definition chapter_mounted ::
  "jsstring option \<Rightarrow> jsstring option \<Rightarrow> jsstring option \<Rightarrow> chapter_detail" where
  "chapter_mounted viewerId targetId chapterName =
     \<lparr> ch_viewerId = viewerId, ch_targetId = targetId, ch_chapterName = chapterName,
       ch_data = None, ch_isEditing = False, ch_editContent = lit '''', ch_saving = False,
       ch_mounted = True \<rparr>"

definition main_view_shown :: "chapter_detail \<Rightarrow> bool" where
  "main_view_shown c \<longleftrightarrow> ch_mounted c \<and> ch_data c \<noteq> None"

definition edit_button_shown :: "chapter_detail \<Rightarrow> bool" where
  "edit_button_shown c \<longleftrightarrow> main_view_shown c \<and> \<not> ch_isEditing c \<and> canEdit c"

definition save_button_enabled :: "chapter_detail \<Rightarrow> bool" where
  "save_button_enabled c \<longleftrightarrow> main_view_shown c \<and> ch_isEditing c \<and> \<not> ch_saving c"

definition startEdit_chapter :: "chapter_detail \<Rightarrow> chapter_detail" where
  "startEdit_chapter c =
     c\<lparr>ch_editContent := (case ch_data c of Some d \<Rightarrow> content d | None \<Rightarrow> lit ''''),
       ch_isEditing := True\<rparr>"

definition cancelEdit_chapter :: "chapter_detail \<Rightarrow> chapter_detail" where
  "cancelEdit_chapter c = c\<lparr>ch_isEditing := False, ch_editContent := lit ''''\<rparr>"

text \<open>
  What can happen to the mounted component: the route parameters change; a load sets
  \<open>data\<close> (to the state received, or to \<open>null\<close>); a button that is on screen is clicked;
  the text area is edited; the component is unmounted. A click on a button that is not on
  screen, or is disabled, does not happen.
\<close>

datatype chapter_event =
    ParamsChanged "jsstring option" "jsstring option" "jsstring option"
  | DataLoaded "state_info option"
  | EditClicked
  | CancelClicked
  | ContentTyped jsstring
  | SaveClicked "unit response"
  | Unmounted

fun chapter_step :: "chapter_detail \<Rightarrow> chapter_event \<Rightarrow> chapter_detail" where
  "chapter_step c (ParamsChanged viewerId targetId chapterName) =
     (if ch_mounted c
      then c\<lparr>ch_viewerId := viewerId, ch_targetId := targetId, ch_chapterName := chapterName,
             ch_isEditing := False, ch_editContent := lit ''''\<rparr>
      else c)"
| "chapter_step c (DataLoaded d) = (if ch_mounted c then c\<lparr>ch_data := d\<rparr> else c)"
| "chapter_step c EditClicked = (if edit_button_shown c then startEdit_chapter c else c)"
| "chapter_step c CancelClicked = (if save_button_enabled c then cancelEdit_chapter c else c)"
| "chapter_step c (ContentTyped s) =
     (if main_view_shown c \<and> ch_isEditing c then c\<lparr>ch_editContent := s\<rparr> else c)"
| "chapter_step c (SaveClicked resp) =
     (if save_button_enabled c then fst (saveEdit_chapter resp c) else c)"
| "chapter_step c Unmounted = c\<lparr>ch_mounted := False\<rparr>"

definition chapter_after ::
  "jsstring option \<Rightarrow> jsstring option \<Rightarrow> jsstring option \<Rightarrow> chapter_event list
     \<Rightarrow> chapter_detail" where
  "chapter_after viewerId targetId chapterName events =
     foldl chapter_step (chapter_mounted viewerId targetId chapterName) events"

text \<open>The update requests among the requests of a handler.\<close>

fun is_update :: "api_call \<Rightarrow> bool" where
  "is_update (updateEntity _ _ _) = True"
| "is_update (updateDirectEdge _ _ _ _) = True"
| "is_update (updateChapter _ _ _ _) = True"
| "is_update _ = False"

definition update_requests :: "effect list \<Rightarrow> api_call list" where
  "update_requests effects = filter is_update (requests effects)"

text \<open>Example states of the components, used to evaluate the handlers.\<close>

definition example_state :: "jsstring \<Rightarrow> int \<Rightarrow> int \<Rightarrow> state_info" where
  "example_state sid v n =
     \<lparr> state_id = sid, entity_id = lit ''char_1'', version = v, name = lit ''Alice'',
       content = lit ''text'', in_count = Some n, out_count = Some 0 \<rparr>"

definition example_edge :: "int \<Rightarrow> edge_info" where
  "example_edge v =
     \<lparr> target_entity_id = lit ''char_2'', target_name = lit ''Bob'',
       relation = lit ''LOVES'', viewer_version = v \<rparr>"

definition example_entity_detail :: entity_detail where
  "example_entity_detail =
     \<lparr> entityId = lit ''char_1'',
       currentContent = Some (example_state (lit ''s2'') 2 1),
       versions = [example_state (lit ''s2'') 2 1, example_state (lit ''s1'') 1 0],
       selectedStateId = Some (lit ''s2''),
       stateStats = Some (stats_of (example_state (lit ''s2'') 2 1)),
       contentError = None, loading = False,
       outboundEdges = [example_edge 2, example_edge 1],
       isEditing = True, editContent = lit ''new text'', editName = lit ''Alice'',
       saving = False \<rparr>"

definition example_relation_detail :: relation_detail where
  "example_relation_detail =
     \<lparr> rel_viewerId = lit ''char_1'', rel_targetId = lit ''char_2'',
       rel_direct = Some \<lparr> direct_relation = lit ''LOVES'', direct_content = lit ''old'',
                            direct_viewer_version = 1 \<rparr>,
       rel_isEditing = True, rel_editContent = lit ''new text'',
       rel_editRelation = lit ''LOVES'', rel_saving = False \<rparr>"


section \<open>features/review: ReviewPage and the review ledger\<close>

datatype operation_type = Create | Modify

text \<open>A snapshot as \<open>getSnapshots\<close> lists it.\<close>

record snapshot =
  resource_id :: jsstring
  resource_type :: jsstring
  operation_type :: operation_type

record review_page =
  currentSessionId :: "jsstring option"
  snapshots :: "snapshot list"
  selectedSnapshot :: "snapshot option"

text \<open>
  The review ledger on the server: the live content of every resource (\<open>None\<close> for a
  resource that does not exist) and the pending snapshot of every (session, resource)
  pair, with the content before the mutation (\<open>None\<close>, that is \<open>null\<close>, for a
  \<open>create\<close>).
\<close>

datatype error = NotFound | Conflict | ValidationError | Internal

record snapshot_row =
  row_operation_type :: operation_type
  snapshot_content :: "jsstring option"

record ledger =
  live :: "jsstring \<Rightarrow> jsstring option"
  pending :: "jsstring \<times> jsstring \<Rightarrow> snapshot_row option"





definition error_message :: "error \<Rightarrow> jsstring" where
  "error_message e =
     (case e of NotFound \<Rightarrow> lit ''Request failed with status code 404''
      | Conflict \<Rightarrow> lit ''Request failed with status code 409''
      | ValidationError \<Rightarrow> lit ''Request failed with status code 422''
      | Internal \<Rightarrow> lit ''Request failed with status code 500'')"




definition effects_of :: "review_page \<times> ledger \<times> effect list \<Rightarrow> effect list" where
  "effects_of result = snd (snd result)"




section \<open>The line diff\<close>

text \<open>
  Modelled from the spec: the line-oriented comparison of two texts into equal, deleted and
  inserted runs. The components call \<open>diffLines\<close> of the package \<open>diff\<close>, and the
  \<open>has_changes\<close> flag comes from the backend; neither is among the sources. The texts are
  cut into lines, each with its line terminator; the lines are compared along a longest
  common subsequence, a deletion before an insertion where both are possible; adjacent
  lines of the same kind are joined into one run.
\<close>

fun lines_from :: "jsstring \<Rightarrow> jsstring \<Rightarrow> jsstring list" where
  "lines_from cur [] = (if cur = [] then [] else [cur])"
| "lines_from cur (c # cs) =
     (if c = 0x000A then (cur @ [c]) # lines_from [] cs else lines_from (cur @ [c]) cs)"

definition tokenize :: "jsstring \<Rightarrow> jsstring list" where
  "tokenize s = lines_from [] s"

fun lcs :: "'a list \<Rightarrow> 'a list \<Rightarrow> nat" where
  "lcs [] ys = 0"
| "lcs xs [] = 0"
| "lcs (x # xs) (y # ys) =
     (if x = y then Suc (lcs xs ys) else max (lcs xs (y # ys)) (lcs (x # xs) ys))"

datatype run_kind = EqualRun | RemovedRun | AddedRun

fun diff_tokens :: "jsstring list \<Rightarrow> jsstring list \<Rightarrow> (run_kind \<times> jsstring) list" where
  "diff_tokens [] ys = map (Pair AddedRun) ys"
| "diff_tokens xs [] = map (Pair RemovedRun) xs"
| "diff_tokens (x # xs) (y # ys) =
     (if x = y then (EqualRun, x) # diff_tokens xs ys
      else if lcs (x # xs) ys \<le> lcs xs (y # ys) then (RemovedRun, x) # diff_tokens xs (y # ys)
      else (AddedRun, y) # diff_tokens (x # xs) ys)"

definition run :: "run_kind \<Rightarrow> jsstring \<Rightarrow> change" where
  "run k v = \<lparr> value = v, added = (k = AddedRun), removed = (k = RemovedRun) \<rparr>"

definition kind_of :: "change \<Rightarrow> run_kind" where
  "kind_of part = (if added part then AddedRun else if removed part then RemovedRun else EqualRun)"

fun merge_runs :: "(run_kind \<times> jsstring) list \<Rightarrow> change list" where
  "merge_runs [] = []"
| "merge_runs ((k, v) # rest) =
     (case merge_runs rest of
        [] \<Rightarrow> [run k v]
      | part # parts \<Rightarrow>
          (if kind_of part = k then part\<lparr>value := v @ value part\<rparr> # parts
           else run k v # part # parts))"

text \<open>
  Modelled from the spec: the line-oriented comparison that \<open>diffLines\<close> of the package
  \<open>diff\<close> stands for, which is not among the sources: the runs of the compared lines.
\<close>

definition spec_diffLines :: differ where
  "spec_diffLines oldStr newStr = merge_runs (diff_tokens (tokenize oldStr) (tokenize newStr))"

text \<open>
  Modelled from the spec: \<open>has_changes\<close> of the diff result, set when the comparison of the
  snapshot text with the current text has an inserted or a deleted run.
\<close>

definition has_changes :: "jsstring \<Rightarrow> jsstring \<Rightarrow> bool" where
  "has_changes snapshot_text current_text =
     list_ex (\<lambda>part. added part \<or> removed part) (spec_diffLines snapshot_text current_text)"


section \<open>Properties of the diff components\<close>

lemma or_empty_Str [simp]: "or_empty (Str s) = s"
  by (simp add: or_empty_def lit_def)

lemma or_empty_Null [simp]: "or_empty Null = []"
  by (simp add: or_empty_def lit_def)

lemma or_empty_Undefined [simp]: "or_empty Undefined = []"
  by (simp add: or_empty_def lit_def)

lemma or_empty_fill_missing [simp]: "or_empty (fill_missing t) = or_empty t"
  by (cases t) simp_all

text \<open>
  Claim C10. Both diff renderers are total on missing inputs: whatever \<open>diffLines\<close> is, a
  \<open>null\<close> or \<open>undefined\<close> text on either side is replaced by the empty string before
  diffing. What is rendered is exactly the runs of \<open>diffLines\<close> on the two texts after
  that replacement, each with the style of its kind (in the split view, the two texts
  themselves), so the runs rendered for \<open>(null, x)\<close> are those of \<open>diffLines('''', x)\<close>.
\<close>

theorem diff_renderers_total_on_missing:
  "SimpleDiff diffLines oldText newText =
     map (\<lambda>part.
            (if added part
             then ''bg-emerald-900/30 text-emerald-300 block border-l-2 border-emerald-500 pl-2''
             else if removed part
             then ''bg-rose-900/30 text-rose-300 block border-l-2 border-rose-500 pl-2''
             else ''text-slate-400'',
             value part))
         (diffLines (case oldText of Str s \<Rightarrow> s | _ \<Rightarrow> [])
                    (case newText of Str s \<Rightarrow> s | _ \<Rightarrow> []))
   \<and> DiffViewer diffLines oldText newText Unified =
     UnifiedView
       (map (\<lambda>part.
               (if added part then ''bg-green-900/30 text-green-200''
                else if removed part then ''bg-red-900/30 text-red-200''
                else ''text-slate-400'',
                value part))
            (diffLines (case oldText of Str s \<Rightarrow> s | _ \<Rightarrow> [])
                       (case newText of Str s \<Rightarrow> s | _ \<Rightarrow> [])))
   \<and> DiffViewer diffLines oldText newText Split =
     SplitView (case oldText of Str s \<Rightarrow> s | _ \<Rightarrow> []) (case newText of Str s \<Rightarrow> s | _ \<Rightarrow> [])
   \<and> map snd (SimpleDiff diffLines Null (Str x)) = map value (diffLines [] x)
   \<and> map snd (SimpleDiff diffLines Undefined (Str x)) = map value (diffLines [] x)
   \<and> map snd (SimpleDiff diffLines (Str x) Null) = map value (diffLines x [])
   \<and> map snd (SimpleDiff diffLines (Str x) Undefined) = map value (diffLines x [])
   \<and> SimpleDiff diffLines oldText newText =
     SimpleDiff diffLines (fill_missing oldText) (fill_missing newText)
   \<and> DiffViewer diffLines oldText newText mode =
     DiffViewer diffLines (fill_missing oldText) (fill_missing newText) mode
   \<and> SimpleDiff diffLines Null (Str x) = SimpleDiff diffLines (Str []) (Str x)
   \<and> SimpleDiff diffLines Undefined (Str x) = SimpleDiff diffLines (Str []) (Str x)
   \<and> SimpleDiff diffLines (Str x) Null = SimpleDiff diffLines (Str x) (Str [])
   \<and> SimpleDiff diffLines (Str x) Undefined = SimpleDiff diffLines (Str x) (Str [])"
proof -
  have o: "or_empty oldText = (case oldText of Str s \<Rightarrow> s | _ \<Rightarrow> [])"
    by (cases oldText) simp_all
  have n: "or_empty newText = (case newText of Str s \<Rightarrow> s | _ \<Rightarrow> [])"
    by (cases newText) simp_all
  show ?thesis
    by (simp add: SimpleDiff_def DiffViewer_def o n comp_def)
qed


section \<open>Properties of the maintenance page\<close>

lemma limit_of_input_range: "1 \<le> limit_of_input v \<and> limit_of_input v \<le> 500"
  by (simp add: limit_of_input_def)

lemma limit_onChange_range:
  assumes "1 \<le> stateLimit p \<and> stateLimit p \<le> 500 \<and> 1 \<le> entityLimit p \<and> entityLimit p \<le> 500"
  shows "1 \<le> stateLimit (limit_onChange p ev) \<and> stateLimit (limit_onChange p ev) \<le> 500
       \<and> 1 \<le> entityLimit (limit_onChange p ev) \<and> entityLimit (limit_onChange p ev) \<le> 500"
  using assms limit_of_input_range by (cases ev) simp_all

lemma foldl_limit_onChange_range:
  assumes "1 \<le> stateLimit p \<and> stateLimit p \<le> 500 \<and> 1 \<le> entityLimit p \<and> entityLimit p \<le> 500"
  shows "1 \<le> stateLimit (foldl limit_onChange p evs)
       \<and> stateLimit (foldl limit_onChange p evs) \<le> 500
       \<and> 1 \<le> entityLimit (foldl limit_onChange p evs)
       \<and> entityLimit (foldl limit_onChange p evs) \<le> 500"
  using assms
proof (induction evs arbitrary: p)
  case Nil
  then show ?case by simp
next
  case (Cons ev evs)
  have "1 \<le> stateLimit (limit_onChange p ev) \<and> stateLimit (limit_onChange p ev) \<le> 500
       \<and> 1 \<le> entityLimit (limit_onChange p ev) \<and> entityLimit (limit_onChange p ev) \<le> 500"
    using Cons.prems by (rule limit_onChange_range)
  then show ?case using Cons.IH by simp
qed

lemma after_inputs_range:
  "1 \<le> stateLimit (after_inputs evs) \<and> stateLimit (after_inputs evs) \<le> 500
   \<and> 1 \<le> entityLimit (after_inputs evs) \<and> entityLimit (after_inputs evs) \<le> 500"
  unfolding after_inputs_def
  by (rule foldl_limit_onChange_range) (simp add: initial_maintenance_page_def)

text \<open>
  Claim C9. Whatever is typed into the two limit fields, in any order and any number of
  times, the stored limits, and so the limits passed to the orphan-state and
  orphan-entity queries, are integers from 1 to 500; an input that \<open>parseInt\<close> does not
  read as a number, or reads as zero, stores the default 100.
\<close>

theorem orphan_limit_in_range:
  "(\<exists>mode n. handleSearchStates_call (after_inputs evs) = getOrphanStates mode n
       \<and> n = stateLimit (after_inputs evs) \<and> 1 \<le> n \<and> n \<le> 500)
   \<and> (\<exists>n. handleSearchEntities_call (after_inputs evs) = getOrphanEntities n
       \<and> n = entityLimit (after_inputs evs) \<and> 1 \<le> n \<and> n \<le> 500)
   \<and> 1 \<le> limit_of_input v \<and> limit_of_input v \<le> 500
   \<and> (parseInt v = None \<or> parseInt v = Some 0 \<longrightarrow> limit_of_input v = 100)"
proof -
  have "parseInt v = None \<or> parseInt v = Some 0 \<longrightarrow> limit_of_input v = 100"
    by (auto simp: limit_of_input_def)
  then show ?thesis
    using after_inputs_range [of evs] limit_of_input_range [of v]
    by (simp add: handleSearchStates_call_def handleSearchEntities_call_def)
qed

lemma parseInt_abc: "parseInt (lit ''abc'') = None"
  by (simp add: parseInt_def lit_def is_ws_def digit_value_def)

lemma parseInt_9999: "parseInt (lit ''9999'') = Some 9999"
  by (simp add: parseInt_def lit_def is_ws_def digit_value_def)

theorem orphan_limit_in_range_witness:
  "parseInt (lit ''abc'') = None
   \<and> limit_of_input (lit ''abc'') = 100
   \<and> handleSearchStates_call (after_inputs [StateLimitInput (lit ''9999'')])
       = getOrphanStates (lit ''in_zero'') 500
   \<and> handleSearchEntities_call (after_inputs [StateLimitInput (lit ''9999'')])
       = getOrphanEntities 100"
  using orphan_limit_in_range [of "[StateLimitInput (lit ''9999'')]" "lit ''abc''"]
  by (simp add: parseInt_abc parseInt_9999 limit_of_input_def after_inputs_def
      initial_maintenance_page_def handleSearchStates_call_def handleSearchEntities_call_def)

lemma hasCurrent_iff:
  "hasCurrent states selected
   \<longleftrightarrow> (\<exists>s \<in> set states. os_state_id s \<in> set selected \<and> os_is_current s)"
  by (simp add: hasCurrent_def list_ex_iff)

lemma confirm_message_warning:
  "CurrentWarning \<in> set (confirm_message states selected) \<longleftrightarrow> hasCurrent states selected"
  by (simp add: confirm_message_def)

lemma handleDeleteStates_shown:
  "shown_message (snd (handleDeleteStates confirmed br sr p)) =
     (if selectedStateIds p = [] then None
      else case orphanStates p of
             None \<Rightarrow> None
           | Some states \<Rightarrow> Some (confirm_message states (selectedStateIds p)))"
  by (simp add: handleDeleteStates_def shown_message_def Let_def
      split: option.splits response.splits)

text \<open>
  Claim C8. The confirmation message of the batch deletion holds the warning about CURRENT
  versions exactly when a selected state id is the id of a state that the orphan-state
  query result flags \<open>is_current\<close>.
\<close>

theorem current_warning_iff_current_selected:
  "contains_current_warning (snd (handleDeleteStates confirmed batch_response search_response p))
   \<longleftrightarrow> (\<exists>states. orphanStates p = Some states
          \<and> (\<exists>s \<in> set states. os_state_id s \<in> set (selectedStateIds p) \<and> os_is_current s))"
proof (cases "selectedStateIds p = []")
  case True
  then show ?thesis
    by (simp add: contains_current_warning_def handleDeleteStates_shown)
next
  case False
  then show ?thesis
    by (cases "orphanStates p")
       (simp_all add: contains_current_warning_def handleDeleteStates_shown
          confirm_message_warning hasCurrent_iff)
qed

theorem current_warning_iff_current_selected_witness:
  "contains_current_warning
     (snd (handleDeleteStates False (Rejected []) (Rejected [])
        (initial_maintenance_page
           \<lparr> orphanStates :=
                Some [\<lparr> os_state_id = lit ''s1'', os_entity_id = lit ''e1'', os_version = 1,
                         os_is_current = False, os_in_count = 0, os_out_count = 0 \<rparr>,
                      \<lparr> os_state_id = lit ''s2'', os_entity_id = lit ''e1'', os_version = 2,
                         os_is_current = True, os_in_count = 0, os_out_count = 0 \<rparr>],
             selectedStateIds := [lit ''s2''] \<rparr>)))
   \<and> \<not> contains_current_warning
     (snd (handleDeleteStates False (Rejected []) (Rejected [])
        (initial_maintenance_page
           \<lparr> orphanStates :=
                Some [\<lparr> os_state_id = lit ''s1'', os_entity_id = lit ''e1'', os_version = 1,
                         os_is_current = False, os_in_count = 0, os_out_count = 0 \<rparr>,
                      \<lparr> os_state_id = lit ''s2'', os_entity_id = lit ''e1'', os_version = 2,
                         os_is_current = True, os_in_count = 0, os_out_count = 0 \<rparr>],
             selectedStateIds := [lit ''s1''] \<rparr>)))"
  using current_warning_iff_current_selected [of False "Rejected []" "Rejected []"
      "initial_maintenance_page
           \<lparr> orphanStates :=
                Some [\<lparr> os_state_id = lit ''s1'', os_entity_id = lit ''e1'', os_version = 1,
                         os_is_current = False, os_in_count = 0, os_out_count = 0 \<rparr>,
                      \<lparr> os_state_id = lit ''s2'', os_entity_id = lit ''e1'', os_version = 2,
                         os_is_current = True, os_in_count = 0, os_out_count = 0 \<rparr>],
             selectedStateIds := [lit ''s2''] \<rparr>"]
    current_warning_iff_current_selected [of False "Rejected []" "Rejected []"
      "initial_maintenance_page
           \<lparr> orphanStates :=
                Some [\<lparr> os_state_id = lit ''s1'', os_entity_id = lit ''e1'', os_version = 1,
                         os_is_current = False, os_in_count = 0, os_out_count = 0 \<rparr>,
                      \<lparr> os_state_id = lit ''s2'', os_entity_id = lit ''e1'', os_version = 2,
                         os_is_current = True, os_in_count = 0, os_out_count = 0 \<rparr>],
             selectedStateIds := [lit ''s1''] \<rparr>"]
  by (simp add: initial_maintenance_page_def lit_def)


section \<open>Properties of the detail pages\<close>

lemma dropWhile_all_ws:
  "(\<forall>x \<in> set (dropWhile is_ws s). is_ws x) \<longleftrightarrow> dropWhile is_ws s = []"
proof
  assume all: "\<forall>x \<in> set (dropWhile is_ws s). is_ws x"
  show "dropWhile is_ws s = []"
  proof (rule ccontr)
    assume ne: "dropWhile is_ws s \<noteq> []"
    then have "\<not> is_ws (hd (dropWhile is_ws s))"
      by (rule hd_dropWhile)
    moreover have "hd (dropWhile is_ws s) \<in> set (dropWhile is_ws s)"
      using ne by simp
    ultimately show False using all by blast
  qed
next
  assume e: "dropWhile is_ws s = []"
  show "\<forall>x \<in> set (dropWhile is_ws s). is_ws x"
    unfolding e by simp
qed

lemma trim_empty_iff: "trim s = [] \<longleftrightarrow> (\<forall>c \<in> set s. is_ws c)"
proof -
  have "trim s = [] \<longleftrightarrow> (\<forall>x \<in> set (dropWhile is_ws s). is_ws x)"
    by (simp add: trim_def dropWhile_eq_Nil_conv)
  also have "\<dots> \<longleftrightarrow> dropWhile is_ws s = []"
    by (rule dropWhile_all_ws)
  also have "\<dots> \<longleftrightarrow> (\<forall>c \<in> set s. is_ws c)"
    by (simp add: dropWhile_eq_Nil_conv)
  finally show ?thesis .
qed

text \<open>
  Claim C3, as the code has it. Once the stats of the selected state have been loaded and
  their \<open>in_count\<close> is greater than zero, the delete-state handler issues no request at all
  (so no \<open>deleteState\<close> request), only shows the alert, and leaves the whole component state
  as it was: the versions list, the selected state and the displayed content among it.
\<close>

theorem delete_state_blocked_by_in_count:
  assumes "stateStats c = Some st" and "stats_in_count st > 0"
  shows "requests (snd (handleDeleteState confirmed resp c)) = []
       \<and> fst (handleDeleteState confirmed resp c) = c
       \<and> versions (fst (handleDeleteState confirmed resp c)) = versions c
       \<and> selectedStateId (fst (handleDeleteState confirmed resp c)) = selectedStateId c
       \<and> currentContent (fst (handleDeleteState confirmed resp c)) = currentContent c
       \<and> (\<forall>sid. Request (deleteState sid) \<notin> set (snd (handleDeleteState confirmed resp c)))
       \<and> (selectedStateId c \<noteq> None \<and> selectedStateId c \<noteq> Some []
            \<longrightarrow> snd (handleDeleteState confirmed resp c) = [Alert (CannotDeleteState (stats_in_count st))])"
  using assms
  by (auto simp: handleDeleteState_def requests_def split: option.splits)

theorem delete_state_blocked_by_in_count_witness:
  "stateStats example_entity_detail = Some \<lparr>stats_in_count = 1, stats_out_count = 0\<rparr>
   \<and> handleDeleteState True (Resolved ()) example_entity_detail
       = (example_entity_detail, [Alert (CannotDeleteState 1)])"
  using delete_state_blocked_by_in_count
    [of example_entity_detail "\<lparr>stats_in_count = 1, stats_out_count = 0\<rparr>" True "Resolved ()"]
  by (simp add: example_entity_detail_def example_state_def stats_of_def lit_def
      handleDeleteState_def)

lemma example_selected_old:
  "select_version (lit ''s1'') (Resolved (example_state (lit ''s1'') 1 0)) example_entity_detail
   = example_entity_detail
       \<lparr> currentContent := Some (example_state (lit ''s1'') 1 0),
         selectedStateId := Some (lit ''s1''),
         stateStats := Some \<lparr>stats_in_count = 0, stats_out_count = 0\<rparr> \<rparr>"
  by (simp add: select_version_def loadStateDetails_def loadStateDetails_begin_def
      example_entity_detail_def example_state_def stats_of_def lit_def)

lemma example_loading_again:
  "select_version_begin (lit ''s2'')
     (select_version (lit ''s1'') (Resolved (example_state (lit ''s1'') 1 0)) example_entity_detail)
   = example_entity_detail
       \<lparr> currentContent := Some (example_state (lit ''s1'') 1 0),
         selectedStateId := Some (lit ''s2''),
         stateStats := None \<rparr>"
  unfolding example_selected_old
  by (simp add: select_version_begin_def loadStateDetails_begin_def example_entity_detail_def
      lit_def)

text \<open>
  The claim as stated fails while the details of a newly selected state are being loaded:
  the stats are cleared, the Delete State button is on screen, and the handler sends
  \<open>deleteState\<close> for the selected state although its \<open>in_count\<close> is 1. Here version 1 is
  on display and version 2 has just been selected again.
\<close>

theorem delete_state_while_loading_counterexample:
  "selectedStateId
     (select_version_begin (lit ''s2'')
        (select_version (lit ''s1'') (Resolved (example_state (lit ''s1'') 1 0))
           example_entity_detail)) = Some (lit ''s2'')
   \<and> selected_in_count
     (select_version_begin (lit ''s2'')
        (select_version (lit ''s1'') (Resolved (example_state (lit ''s1'') 1 0))
           example_entity_detail)) = Some 1
   \<and> stateStats
     (select_version_begin (lit ''s2'')
        (select_version (lit ''s1'') (Resolved (example_state (lit ''s1'') 1 0))
           example_entity_detail)) = None
   \<and> requests (snd (handleDeleteState True (Rejected (error_message Conflict))
        (select_version_begin (lit ''s2'')
           (select_version (lit ''s1'') (Resolved (example_state (lit ''s1'') 1 0))
              example_entity_detail))))
       = [deleteState (lit ''s2'')]"
  unfolding example_loading_again
  by (simp add: selected_in_count_def handleDeleteState_def requests_def
      example_entity_detail_def example_state_def lit_def)

text \<open>
  Claim C6. The delete-entity handler issues no request while the version history of the
  entity is not empty: it shows the alert and changes nothing. The view with the
  \<open>Delete Entity\<close> button is rendered only for an empty history, and with an empty history
  the handler never takes the alert branch: it asks for confirmation and issues exactly
  the \<open>deleteEntity\<close> request when confirmed.
\<close>

theorem delete_entity_only_without_states:
  "(versions c \<noteq> [] \<longrightarrow>
      handleDeleteEntity confirmed resp c = (c, [Alert CannotDeleteEntity])
      \<and> requests (snd (handleDeleteEntity confirmed resp c)) = [])
   \<and> (shows_delete_entity_button c \<longrightarrow> versions c = [])
   \<and> (versions c = [] \<longrightarrow>
      Alert CannotDeleteEntity \<notin> set (snd (handleDeleteEntity confirmed resp c))
      \<and> fst (handleDeleteEntity confirmed resp c) = c
      \<and> requests (snd (handleDeleteEntity confirmed resp c))
          = (if confirmed then [deleteEntity (entityId c)] else []))"
  by (auto simp: handleDeleteEntity_def requests_def shows_delete_entity_button_def Let_def
      split: response.splits)

theorem delete_entity_only_without_states_witness:
  "versions example_entity_detail \<noteq> []
   \<and> handleDeleteEntity True (Resolved ()) example_entity_detail
       = (example_entity_detail, [Alert CannotDeleteEntity])
   \<and> versions (example_entity_detail\<lparr>versions := []\<rparr>) = []
   \<and> shows_delete_entity_button (example_entity_detail\<lparr>versions := []\<rparr>)
   \<and> requests (snd (handleDeleteEntity True (Resolved ()) (example_entity_detail\<lparr>versions := []\<rparr>)))
       = [deleteEntity (lit ''char_1'')]"
  using delete_entity_only_without_states [of example_entity_detail True "Resolved ()"]
    delete_entity_only_without_states [of "example_entity_detail\<lparr>versions := []\<rparr>" True "Resolved ()"]
  by (simp add: example_entity_detail_def shows_delete_entity_button_def)

lemma highlighted_iff:
  assumes "currentContent c = Some shown"
  shows "highlighted c edge
         \<longleftrightarrow> edge \<in> set (outboundEdges c) \<and> viewer_version edge \<noteq> version shown"
  using assms
  by (auto simp: highlighted_def render_outboundEdges_def edge_version_class_def)

text \<open>
  Claim C5, as the code has it. An outbound edge is highlighted exactly when its
  \<open>viewer_version\<close> differs from the version of the state selected for display
  (\<open>currentContent\<close>). This is the comparison with the current version of the entity
  whenever the displayed state is the current one.
\<close>

theorem edge_highlighted_iff_differs_from_displayed:
  assumes "currentContent c = Some shown" and "edge \<in> set (outboundEdges c)"
  shows "(highlighted c edge \<longleftrightarrow> viewer_version edge \<noteq> version shown)
       \<and> (current_version (versions c) = Some (version shown) \<longrightarrow>
            (highlighted c edge \<longleftrightarrow> Some (viewer_version edge) \<noteq> current_version (versions c)))"
  using assms by (auto simp: highlighted_iff)

lemma example_current_version: "current_version (versions example_entity_detail) = Some 2"
  by (simp add: current_version_def example_entity_detail_def example_state_def)

theorem edge_highlighted_iff_differs_from_displayed_witness:
  "currentContent example_entity_detail = Some (example_state (lit ''s2'') 2 1)
   \<and> example_edge 1 \<in> set (outboundEdges example_entity_detail)
   \<and> current_version (versions example_entity_detail) = Some 2
   \<and> highlighted example_entity_detail (example_edge 1)"
  using edge_highlighted_iff_differs_from_displayed
    [of example_entity_detail "example_state (lit ''s2'') 2 1" "example_edge 1"]
    example_current_version
  by (simp add: example_entity_detail_def example_state_def example_edge_def)

text \<open>
  The claim as stated fails once an older version is selected: with the history
  \<open>[v2, v1]\<close> and \<open>v1\<close> on display, the edge pinned to the current version 2 is highlighted
  and the edge pinned to version 1 is not.
\<close>

theorem stale_against_current_counterexample:
  "current_version
     (versions (select_version (lit ''s1'') (Resolved (example_state (lit ''s1'') 1 0))
        example_entity_detail)) = Some 2
   \<and> viewer_version (example_edge 2) = 2
   \<and> highlighted
       (select_version (lit ''s1'') (Resolved (example_state (lit ''s1'') 1 0))
          example_entity_detail) (example_edge 2)
   \<and> viewer_version (example_edge 1) = 1
   \<and> \<not> highlighted
       (select_version (lit ''s1'') (Resolved (example_state (lit ''s1'') 1 0))
          example_entity_detail) (example_edge 1)"
  unfolding example_selected_old
  by (simp add: highlighted_iff [where shown = "example_state (lit ''s1'') 1 0"]
      example_current_version [unfolded example_entity_detail_def]
      example_entity_detail_def example_edge_def example_state_def current_version_def)

lemma saveEdit_empty:
  "trim (editContent c) = [] \<Longrightarrow> saveEdit resp c = (c, [Alert ContentEmpty])"
  by (simp add: saveEdit_def)

lemma saveEdit_nonempty:
  "trim (editContent c) \<noteq> [] \<Longrightarrow>
   update_requests (snd (saveEdit resp c))
     = [updateEntity (entityId c) (editContent c)
          (if Some (editName c) \<noteq> map_option name (currentContent c)
           then Some (editName c) else None)]"
  by (simp add: saveEdit_def update_requests_def requests_def Let_def split: response.splits)

lemma saveEdit_relation_empty:
  "trim (rel_editContent r) = [] \<Longrightarrow> saveEdit_relation resp r = (r, [Alert ContentEmpty])"
  by (simp add: saveEdit_relation_def)

lemma saveEdit_relation_nonempty:
  "trim (rel_editContent r) \<noteq> [] \<Longrightarrow>
   update_requests (snd (saveEdit_relation resp r))
     = [updateDirectEdge (rel_viewerId r) (rel_targetId r) (rel_editContent r)
          (if Some (rel_editRelation r) \<noteq> map_option direct_relation (rel_direct r)
           then Some (rel_editRelation r) else None)]"
  by (simp add: saveEdit_relation_def update_requests_def requests_def Let_def
      split: response.splits)

lemma saveEdit_chapter_empty:
  "trim (ch_editContent h) = [] \<Longrightarrow> saveEdit_chapter resp h = (h, [Alert ContentEmpty])"
  by (simp add: saveEdit_chapter_def)

lemma saveEdit_chapter_nonempty:
  "trim (ch_editContent h) \<noteq> [] \<Longrightarrow> canEdit h \<Longrightarrow>
   \<exists>viewerId targetId chapterName.
     ch_viewerId h = Some viewerId \<and> ch_targetId h = Some targetId
     \<and> ch_chapterName h = Some chapterName
     \<and> update_requests (snd (saveEdit_chapter resp h))
         = [updateChapter viewerId targetId chapterName (ch_editContent h)]"
  by (auto simp: saveEdit_chapter_def canEdit_def param_truthy_def update_requests_def
      requests_def Let_def split: option.splits response.splits)

text \<open>
  While the chapter component is in edit mode, the route parameters are all present: edit
  mode is entered only through the Edit button, which needs \<open>canEdit\<close>, and a change of the
  parameters leaves it.
\<close>

lemma canEdit_saveEdit_chapter:
  "canEdit (fst (saveEdit_chapter resp h)) = canEdit h"
  by (auto simp: saveEdit_chapter_def canEdit_def Let_def split: option.splits response.splits)

lemma isEditing_saveEdit_chapter:
  "ch_isEditing (fst (saveEdit_chapter resp h)) \<Longrightarrow> ch_isEditing h"
  by (auto simp: saveEdit_chapter_def Let_def split: option.splits response.splits if_splits)

lemma chapter_step_editing:
  assumes "ch_isEditing h \<longrightarrow> canEdit h"
  shows "ch_isEditing (chapter_step h ev) \<longrightarrow> canEdit (chapter_step h ev)"
proof (cases ev)
  case (ParamsChanged v t n)
  with assms show ?thesis by (simp add: canEdit_def)
next
  case (DataLoaded d)
  with assms show ?thesis by (simp add: canEdit_def)
next
  case EditClicked
  with assms show ?thesis
    by (simp add: edit_button_shown_def startEdit_chapter_def canEdit_def)
next
  case CancelClicked
  with assms show ?thesis by (simp add: cancelEdit_chapter_def canEdit_def)
next
  case (ContentTyped s)
  with assms show ?thesis by (simp add: canEdit_def)
next
  case (SaveClicked resp)
  with assms show ?thesis
    using isEditing_saveEdit_chapter [of resp h] by (auto simp: canEdit_saveEdit_chapter)
next
  case Unmounted
  with assms show ?thesis by (simp add: canEdit_def)
qed

lemma foldl_chapter_step_editing:
  assumes "ch_isEditing h \<longrightarrow> canEdit h"
  shows "ch_isEditing (foldl chapter_step h events) \<longrightarrow> canEdit (foldl chapter_step h events)"
  using assms
proof (induction events arbitrary: h)
  case Nil
  then show ?case by simp
next
  case (Cons ev events)
  have "ch_isEditing (chapter_step h ev) \<longrightarrow> canEdit (chapter_step h ev)"
    using Cons.prems by (rule chapter_step_editing)
  then show ?case using Cons.IH by simp
qed

lemma chapter_after_editing:
  "ch_isEditing (chapter_after viewerId targetId chapterName events)
   \<Longrightarrow> canEdit (chapter_after viewerId targetId chapterName events)"
proof -
  have "ch_isEditing (chapter_mounted viewerId targetId chapterName)
        \<longrightarrow> canEdit (chapter_mounted viewerId targetId chapterName)"
    by (simp add: chapter_mounted_def)
  then show "ch_isEditing (chapter_after viewerId targetId chapterName events)
      \<Longrightarrow> canEdit (chapter_after viewerId targetId chapterName events)"
    unfolding chapter_after_def using foldl_chapter_step_editing by blast
qed

text \<open>
  Claim C7. In the three save handlers, content that is empty or only white space issues
  no request and leaves the component state unchanged, with the alert that content cannot
  be empty. Content that is not empty after trimming issues exactly one update request: in
  the entity and the direct-edge handler always, and in the chapter handler in every state
  the component can be in when Save is clicked (after any sequence of events since it was
  mounted), where the viewer id, the target id and the chapter name are all present.
\<close>

theorem save_edit_guards_empty_content:
  "((\<forall>ch \<in> set (editContent c). is_ws ch) \<longrightarrow>
       saveEdit resp c = (c, [Alert ContentEmpty]) \<and> requests (snd (saveEdit resp c)) = [])
   \<and> (trim (editContent c) \<noteq> [] \<longrightarrow> length (update_requests (snd (saveEdit resp c))) = 1)
   \<and> ((\<forall>ch \<in> set (rel_editContent r). is_ws ch) \<longrightarrow>
       saveEdit_relation resp r = (r, [Alert ContentEmpty])
       \<and> requests (snd (saveEdit_relation resp r)) = [])
   \<and> (trim (rel_editContent r) \<noteq> [] \<longrightarrow>
       length (update_requests (snd (saveEdit_relation resp r))) = 1)
   \<and> ((\<forall>ch \<in> set (ch_editContent h). is_ws ch) \<longrightarrow>
       saveEdit_chapter resp h = (h, [Alert ContentEmpty])
       \<and> requests (snd (saveEdit_chapter resp h)) = [])
   \<and> (trim (ch_editContent h) \<noteq> [] \<and> canEdit h \<longrightarrow>
       length (update_requests (snd (saveEdit_chapter resp h))) = 1)
   \<and> (save_button_enabled (chapter_after viewerId targetId chapterName events)
       \<and> trim (ch_editContent (chapter_after viewerId targetId chapterName events)) \<noteq> [] \<longrightarrow>
       length (update_requests (snd (saveEdit_chapter resp
         (chapter_after viewerId targetId chapterName events)))) = 1
       \<and> (\<exists>v t n. update_requests (snd (saveEdit_chapter resp
             (chapter_after viewerId targetId chapterName events)))
           = [updateChapter v t n
                (ch_editContent (chapter_after viewerId targetId chapterName events))]))"
proof -
  let ?h = "chapter_after viewerId targetId chapterName events"
  have e: "(\<forall>ch \<in> set (editContent c). is_ws ch) \<longrightarrow>
       saveEdit resp c = (c, [Alert ContentEmpty]) \<and> requests (snd (saveEdit resp c)) = []"
    using saveEdit_empty [of c resp] by (simp add: trim_empty_iff requests_def)
  have e1: "trim (editContent c) \<noteq> [] \<longrightarrow> length (update_requests (snd (saveEdit resp c))) = 1"
    using saveEdit_nonempty [of c resp] by simp
  have d: "(\<forall>ch \<in> set (rel_editContent r). is_ws ch) \<longrightarrow>
       saveEdit_relation resp r = (r, [Alert ContentEmpty])
       \<and> requests (snd (saveEdit_relation resp r)) = []"
    using saveEdit_relation_empty [of r resp] by (simp add: trim_empty_iff requests_def)
  have d1: "trim (rel_editContent r) \<noteq> [] \<longrightarrow>
       length (update_requests (snd (saveEdit_relation resp r))) = 1"
    using saveEdit_relation_nonempty [of r resp] by simp
  have h: "(\<forall>ch \<in> set (ch_editContent h). is_ws ch) \<longrightarrow>
       saveEdit_chapter resp h = (h, [Alert ContentEmpty])
       \<and> requests (snd (saveEdit_chapter resp h)) = []"
    using saveEdit_chapter_empty [of h resp] by (simp add: trim_empty_iff requests_def)
  have h1: "trim (ch_editContent h) \<noteq> [] \<and> canEdit h \<longrightarrow>
       length (update_requests (snd (saveEdit_chapter resp h))) = 1"
    using saveEdit_chapter_nonempty [of h resp] by auto
  have h2: "save_button_enabled ?h \<and> trim (ch_editContent ?h) \<noteq> [] \<longrightarrow>
       length (update_requests (snd (saveEdit_chapter resp ?h))) = 1
       \<and> (\<exists>v t n. update_requests (snd (saveEdit_chapter resp ?h))
           = [updateChapter v t n (ch_editContent ?h)])"
  proof
    assume a: "save_button_enabled ?h \<and> trim (ch_editContent ?h) \<noteq> []"
    then have "ch_isEditing ?h" by (simp add: save_button_enabled_def)
    then have "canEdit ?h" by (rule chapter_after_editing)
    with a saveEdit_chapter_nonempty [of ?h resp]
    obtain v t n where "update_requests (snd (saveEdit_chapter resp ?h))
        = [updateChapter v t n (ch_editContent ?h)]"
      by blast
    then show "length (update_requests (snd (saveEdit_chapter resp ?h))) = 1
       \<and> (\<exists>v t n. update_requests (snd (saveEdit_chapter resp ?h))
           = [updateChapter v t n (ch_editContent ?h)])"
      by auto
  qed
  from e e1 d d1 h h1 h2 show ?thesis by blast
qed

lemma trim_x: "trim (lit ''x'') = lit ''x''"
  by (simp add: trim_def lit_def is_ws_def)

lemma trim_new_text: "trim (lit ''new text'') \<noteq> []"
  by (simp add: trim_def lit_def is_ws_def)

lemma trim_spaces: "trim (lit ''  '') = []"
  by (simp add: trim_def lit_def is_ws_def)

lemma example_chapter_editing:
  "chapter_after (Some (lit ''char_1'')) (Some (lit ''char_2'')) (Some (lit ''ch1''))
     [DataLoaded (Some (example_state (lit ''s1'') 1 0)), EditClicked, ContentTyped (lit ''x'')]
   = \<lparr> ch_viewerId = Some (lit ''char_1''), ch_targetId = Some (lit ''char_2''),
       ch_chapterName = Some (lit ''ch1''),
       ch_data = Some (example_state (lit ''s1'') 1 0), ch_isEditing = True,
       ch_editContent = lit ''x'', ch_saving = False, ch_mounted = True \<rparr>"
  by (simp add: chapter_after_def chapter_mounted_def edit_button_shown_def
      main_view_shown_def canEdit_def param_truthy_def startEdit_chapter_def)
     (simp add: lit_def)

theorem save_edit_guards_empty_content_witness:
  "trim (editContent example_entity_detail) \<noteq> []
   \<and> length (update_requests (snd (saveEdit (Resolved ()) example_entity_detail))) = 1
   \<and> trim (editContent (example_entity_detail\<lparr>editContent := lit ''  ''\<rparr>)) = []
   \<and> requests (snd (saveEdit (Resolved ()) (example_entity_detail\<lparr>editContent := lit ''  ''\<rparr>))) = []
   \<and> trim (rel_editContent example_relation_detail) \<noteq> []
   \<and> length (update_requests (snd (saveEdit_relation (Resolved ()) example_relation_detail))) = 1
   \<and> trim (rel_editContent (example_relation_detail\<lparr>rel_editContent := lit ''  ''\<rparr>)) = []
   \<and> requests (snd (saveEdit_relation (Resolved ())
        (example_relation_detail\<lparr>rel_editContent := lit ''  ''\<rparr>))) = []
   \<and> save_button_enabled
       (chapter_after (Some (lit ''char_1'')) (Some (lit ''char_2'')) (Some (lit ''ch1''))
          [DataLoaded (Some (example_state (lit ''s1'') 1 0)), EditClicked,
           ContentTyped (lit ''x'')])
   \<and> canEdit
       (chapter_after (Some (lit ''char_1'')) (Some (lit ''char_2'')) (Some (lit ''ch1''))
          [DataLoaded (Some (example_state (lit ''s1'') 1 0)), EditClicked,
           ContentTyped (lit ''x'')])
   \<and> length (update_requests (snd (saveEdit_chapter (Resolved ())
       (chapter_after (Some (lit ''char_1'')) (Some (lit ''char_2'')) (Some (lit ''ch1''))
          [DataLoaded (Some (example_state (lit ''s1'') 1 0)), EditClicked,
           ContentTyped (lit ''x'')])))) = 1
   \<and> trim (ch_editContent
       (chapter_after (Some (lit ''char_1'')) (Some (lit ''char_2'')) (Some (lit ''ch1''))
          [DataLoaded (Some (example_state (lit ''s1'') 1 0)), EditClicked,
           ContentTyped (lit ''  '')])) = []
   \<and> requests (snd (saveEdit_chapter (Resolved ())
       (chapter_after (Some (lit ''char_1'')) (Some (lit ''char_2'')) (Some (lit ''ch1''))
          [DataLoaded (Some (example_state (lit ''s1'') 1 0)), EditClicked,
           ContentTyped (lit ''  '')]))) = []"
proof -
  let ?evs = "[DataLoaded (Some (example_state (lit ''s1'') 1 0)), EditClicked,
           ContentTyped (lit ''x'')]"
  let ?evs' = "[DataLoaded (Some (example_state (lit ''s1'') 1 0)), EditClicked,
           ContentTyped (lit ''  '')]"
  let ?h = "chapter_after (Some (lit ''char_1'')) (Some (lit ''char_2'')) (Some (lit ''ch1'')) ?evs"
  let ?h' = "chapter_after (Some (lit ''char_1'')) (Some (lit ''char_2'')) (Some (lit ''ch1'')) ?evs'"
  let ?r' = "example_relation_detail\<lparr>rel_editContent := lit ''  ''\<rparr>"
  have a: "trim (editContent example_entity_detail) \<noteq> []"
    by (simp add: example_entity_detail_def trim_new_text)
  have b: "\<forall>ch \<in> set (editContent (example_entity_detail\<lparr>editContent := lit ''  ''\<rparr>)). is_ws ch"
    by (simp add: lit_def is_ws_def)
  have b': "trim (editContent (example_entity_detail\<lparr>editContent := lit ''  ''\<rparr>)) = []"
    by (simp add: trim_spaces)
  have c: "trim (rel_editContent example_relation_detail) \<noteq> []"
    by (simp add: example_relation_detail_def trim_new_text)
  have e: "\<forall>ch \<in> set (rel_editContent ?r'). is_ws ch"
    by (simp add: lit_def is_ws_def)
  have e': "trim (rel_editContent ?r') = []"
    by (simp add: trim_spaces)
  have s: "save_button_enabled ?h"
    unfolding example_chapter_editing
    by (simp add: save_button_enabled_def main_view_shown_def)
  have k: "canEdit ?h"
    unfolding example_chapter_editing
    by (simp add: canEdit_def param_truthy_def lit_def)
  have x: "lit ''x'' \<noteq> []" by (simp add: lit_def)
  have d: "trim (ch_editContent ?h) \<noteq> []"
    unfolding example_chapter_editing using x by (simp add: trim_x)
  have g: "ch_editContent ?h' = lit ''  ''"
    by (simp add: chapter_after_def chapter_mounted_def edit_button_shown_def
        main_view_shown_def canEdit_def param_truthy_def startEdit_chapter_def)
       (simp add: lit_def)
  have f: "\<forall>ch \<in> set (ch_editContent ?h'). is_ws ch"
    unfolding g by (simp add: lit_def is_ws_def)
  have f': "trim (ch_editContent ?h') = []"
    unfolding g by (rule trim_spaces)
  note t1 = save_edit_guards_empty_content
      [of example_entity_detail "Resolved ()" example_relation_detail ?h
          "Some (lit ''char_1'')" "Some (lit ''char_2'')" "Some (lit ''ch1'')" ?evs]
  note t2 = save_edit_guards_empty_content
      [of "example_entity_detail\<lparr>editContent := lit ''  ''\<rparr>" "Resolved ()" ?r' ?h'
          "Some (lit ''char_1'')" "Some (lit ''char_2'')" "Some (lit ''ch1'')" ?evs]
  have r1: "length (update_requests (snd (saveEdit (Resolved ()) example_entity_detail))) = 1"
    using a t1 by blast
  have r2: "requests (snd (saveEdit (Resolved ())
      (example_entity_detail\<lparr>editContent := lit ''  ''\<rparr>))) = []"
    using b t2 by blast
  have r3: "length (update_requests (snd (saveEdit_relation (Resolved ())
      example_relation_detail))) = 1"
    using c t1 by blast
  have r4: "requests (snd (saveEdit_relation (Resolved ()) ?r')) = []"
    using e t2 by blast
  have r5: "length (update_requests (snd (saveEdit_chapter (Resolved ()) ?h))) = 1"
    using s d t1 by blast
  have r6: "requests (snd (saveEdit_chapter (Resolved ()) ?h')) = []"
    using f t2 by blast
  from a r1 b' r2 c r3 e' r4 s k r5 f' r6 show ?thesis by blast
qed



section \<open>Properties of the review page\<close>








section \<open>Properties of the line diff\<close>

lemma concat_lines_from: "concat (lines_from cur s) = cur @ s"
  by (induction s arbitrary: cur) auto

lemma concat_tokenize: "concat (tokenize s) = s"
  by (simp add: tokenize_def concat_lines_from)

lemma tokenize_inject: "tokenize s = tokenize t \<longleftrightarrow> s = t"
proof
  assume "tokenize s = tokenize t"
  then have "concat (tokenize s) = concat (tokenize t)" by simp
  then show "s = t" by (simp add: concat_tokenize)
qed simp

lemma diff_tokens_same: "diff_tokens xs xs = map (Pair EqualRun) xs"
  by (induction xs) auto

lemma diff_tokens_old:
  "map snd (filter (\<lambda>t. fst t \<noteq> AddedRun) (diff_tokens xs ys)) = xs"
  by (induction xs ys rule: diff_tokens.induct) (auto simp: filter_map comp_def)

lemma diff_tokens_new:
  "map snd (filter (\<lambda>t. fst t \<noteq> RemovedRun) (diff_tokens xs ys)) = ys"
  by (induction xs ys rule: diff_tokens.induct) (auto simp: filter_map comp_def)

lemma diff_tokens_all_equal:
  assumes "\<forall>t \<in> set (diff_tokens xs ys). fst t = EqualRun"
  shows "xs = ys"
proof -
  have "filter (\<lambda>t. fst t \<noteq> AddedRun) (diff_tokens xs ys) = diff_tokens xs ys"
    using assms by (auto simp: filter_id_conv)
  moreover have "filter (\<lambda>t. fst t \<noteq> RemovedRun) (diff_tokens xs ys) = diff_tokens xs ys"
    using assms by (auto simp: filter_id_conv)
  ultimately show ?thesis
    using diff_tokens_old [of xs ys] diff_tokens_new [of xs ys] by simp
qed

lemma kind_of_run [simp]: "kind_of (run k v) = k"
  by (cases k) (simp_all add: kind_of_def run_def)

lemma kind_of_value_update [simp]: "kind_of (part\<lparr>value := v\<rparr>) = kind_of part"
  by (simp add: kind_of_def)

lemma kinds_merge_runs: "kind_of ` set (merge_runs ts) = fst ` set ts"
proof (induction ts)
  case Nil
  then show ?case by simp
next
  case (Cons t ts)
  obtain k v where t: "t = (k, v)" by (cases t)
  show ?case
  proof (cases "merge_runs ts")
    case Nil
    with Cons.IH have "fst ` set ts = {}" by simp
    with Nil t show ?thesis by simp
  next
    case (Cons part parts)
    with Cons.IH have ih: "insert (kind_of part) (kind_of ` set parts) = fst ` set ts"
      by simp
    from Cons t ih show ?thesis
      by (auto simp: insert_absorb)
  qed
qed

lemma unchanged_iff_kind: "\<not> added part \<and> \<not> removed part \<longleftrightarrow> kind_of part = EqualRun"
  by (simp add: kind_of_def)

lemma merge_runs_all_equal:
  "(\<forall>part \<in> set (merge_runs ts). \<not> added part \<and> \<not> removed part)
   \<longleftrightarrow> (\<forall>t \<in> set ts. fst t = EqualRun)"
proof -
  have "(\<forall>part \<in> set (merge_runs ts). \<not> added part \<and> \<not> removed part)
        \<longleftrightarrow> kind_of ` set (merge_runs ts) \<subseteq> {EqualRun}"
    by (auto simp: unchanged_iff_kind)
  also have "\<dots> \<longleftrightarrow> fst ` set ts \<subseteq> {EqualRun}"
    by (simp only: kinds_merge_runs)
  also have "\<dots> \<longleftrightarrow> (\<forall>t \<in> set ts. fst t = EqualRun)"
    by auto
  finally show ?thesis .
qed

lemma spec_diffLines_only_equal_iff:
  "(\<forall>part \<in> set (spec_diffLines oldStr newStr). \<not> added part \<and> \<not> removed part)
   \<longleftrightarrow> oldStr = newStr"
proof
  assume "\<forall>part \<in> set (spec_diffLines oldStr newStr). \<not> added part \<and> \<not> removed part"
  then have "\<forall>t \<in> set (diff_tokens (tokenize oldStr) (tokenize newStr)). fst t = EqualRun"
    by (simp only: spec_diffLines_def merge_runs_all_equal)
  then have "tokenize oldStr = tokenize newStr"
    by (rule diff_tokens_all_equal)
  then show "oldStr = newStr"
    by (simp add: tokenize_inject)
next
  assume "oldStr = newStr"
  then have "\<forall>t \<in> set (diff_tokens (tokenize oldStr) (tokenize newStr)). fst t = EqualRun"
    by (auto simp: diff_tokens_same)
  then show "\<forall>part \<in> set (spec_diffLines oldStr newStr). \<not> added part \<and> \<not> removed part"
    by (simp only: spec_diffLines_def merge_runs_all_equal)
qed

lemma value_run [simp]: "value (run k v) = v"
  by (simp add: run_def)

lemma merge_runs_Nil_iff: "merge_runs ts = [] \<longleftrightarrow> ts = []"
proof (cases ts)
  case Nil
  then show ?thesis by simp
next
  case (Cons t ts')
  obtain k v where "t = (k, v)" by (cases t)
  with Cons show ?thesis by (simp split: list.splits)
qed

lemma merge_runs_old:
  "concat (map value (filter (\<lambda>part. kind_of part \<noteq> AddedRun) (merge_runs ts)))
   = concat (map snd (filter (\<lambda>t. fst t \<noteq> AddedRun) ts))"
proof (induction ts)
  case Nil
  then show ?case by simp
next
  case (Cons t ts)
  obtain k v where t: "t = (k, v)" by (cases t)
  show ?case
  proof (cases "merge_runs ts")
    case Nil
    then have "ts = []" by (simp add: merge_runs_Nil_iff)
    with Nil t show ?thesis by simp
  next
    case (Cons part parts)
    with Cons.IH t show ?thesis by auto
  qed
qed

lemma merge_runs_new:
  "concat (map value (filter (\<lambda>part. kind_of part \<noteq> RemovedRun) (merge_runs ts)))
   = concat (map snd (filter (\<lambda>t. fst t \<noteq> RemovedRun) ts))"
proof (induction ts)
  case Nil
  then show ?case by simp
next
  case (Cons t ts)
  obtain k v where t: "t = (k, v)" by (cases t)
  show ?case
  proof (cases "merge_runs ts")
    case Nil
    then have "ts = []" by (simp add: merge_runs_Nil_iff)
    with Nil t show ?thesis by simp
  next
    case (Cons part parts)
    with Cons.IH t show ?thesis by auto
  qed
qed

text \<open>
  The runs of the comparison give both texts back: the old text is the runs that are not
  inserted, the new text the runs that are not deleted.
\<close>

lemma spec_diffLines_texts:
  "concat (map value (filter (\<lambda>part. kind_of part \<noteq> AddedRun) (spec_diffLines oldStr newStr)))
     = oldStr
   \<and> concat (map value (filter (\<lambda>part. kind_of part \<noteq> RemovedRun)
        (spec_diffLines oldStr newStr))) = newStr"
proof -
  have "concat (map snd (filter (\<lambda>t. fst t \<noteq> AddedRun)
          (diff_tokens (tokenize oldStr) (tokenize newStr)))) = oldStr"
    using diff_tokens_old [of "tokenize oldStr" "tokenize newStr"]
    by (simp add: concat_tokenize)
  moreover have "concat (map snd (filter (\<lambda>t. fst t \<noteq> RemovedRun)
          (diff_tokens (tokenize oldStr) (tokenize newStr)))) = newStr"
    using diff_tokens_new [of "tokenize oldStr" "tokenize newStr"]
    by (simp add: concat_tokenize)
  ultimately show ?thesis
    by (simp add: spec_diffLines_def merge_runs_old merge_runs_new)
qed

text \<open>
  Claim C2. For all texts, the line comparison of the snapshot text with the current text
  has only equal runs exactly when the two texts are the same string, and so
  \<open>has_changes\<close> is false exactly then; \<open>SimpleDiff\<close> then renders no inserted and no
  deleted run.
\<close>

theorem has_changes_iff_texts_differ:
  "((\<forall>part \<in> set (spec_diffLines snapshot_text current_text). \<not> added part \<and> \<not> removed part)
      \<longleftrightarrow> snapshot_text = current_text)
   \<and> (\<not> has_changes snapshot_text current_text \<longleftrightarrow> snapshot_text = current_text)
   \<and> ((\<forall>span \<in> set (SimpleDiff spec_diffLines (Str snapshot_text) (Str current_text)).
          fst span = ''text-slate-400'')
      \<longleftrightarrow> snapshot_text = current_text)"
proof -
  have a: "(\<forall>part \<in> set (spec_diffLines snapshot_text current_text).
              \<not> added part \<and> \<not> removed part) \<longleftrightarrow> snapshot_text = current_text"
    by (rule spec_diffLines_only_equal_iff)
  have b: "\<not> has_changes snapshot_text current_text
           \<longleftrightarrow> (\<forall>part \<in> set (spec_diffLines snapshot_text current_text).
                  \<not> added part \<and> \<not> removed part)"
    by (auto simp: has_changes_def list_ex_iff)
  have c: "(\<forall>span \<in> set (SimpleDiff spec_diffLines (Str snapshot_text) (Str current_text)).
              fst span = ''text-slate-400'')
           \<longleftrightarrow> (\<forall>part \<in> set (spec_diffLines snapshot_text current_text).
                  \<not> added part \<and> \<not> removed part)"
    by (auto simp: SimpleDiff_def)
  from a b c show ?thesis by simp
qed

lemma spec_diffLines_example:
  "spec_diffLines (lit ''a'' @ [0x000A] @ lit ''b'') (lit ''a'' @ [0x000A] @ lit ''c'')
   = [\<lparr>value = lit ''a'' @ [0x000A], added = False, removed = False\<rparr>,
      \<lparr>value = lit ''b'', added = False, removed = True\<rparr>,
      \<lparr>value = lit ''c'', added = True, removed = False\<rparr>]"
  by (simp add: spec_diffLines_def tokenize_def lit_def run_def kind_of_def)

theorem has_changes_iff_texts_differ_witness:
  "has_changes (lit ''a'' @ [0x000A] @ lit ''b'') (lit ''a'' @ [0x000A] @ lit ''c'')
   \<and> \<not> has_changes (lit ''A'') (lit ''A'')
   \<and> spec_diffLines (lit ''A'') (lit ''A'') = [\<lparr>value = lit ''A'', added = False, removed = False\<rparr>]"
proof -
  have "lit ''a'' @ [0x000A] @ lit ''b'' \<noteq> lit ''a'' @ [0x000A] @ lit ''c''"
    by (simp add: lit_def)
  then have "has_changes (lit ''a'' @ [0x000A] @ lit ''b'') (lit ''a'' @ [0x000A] @ lit ''c'')"
    using has_changes_iff_texts_differ
      [of "lit ''a'' @ [0x000A] @ lit ''b''" "lit ''a'' @ [0x000A] @ lit ''c''"]
    by blast
  moreover have "\<not> has_changes (lit ''A'') (lit ''A'')"
    using has_changes_iff_texts_differ [of "lit ''A''" "lit ''A''"] by blast
  moreover have "spec_diffLines (lit ''A'') (lit ''A'')
      = [\<lparr>value = lit ''A'', added = False, removed = False\<rparr>]"
    by (simp add: spec_diffLines_def tokenize_def lit_def run_def)
  ultimately show ?thesis by blast
qed


section \<open>Properties of the id escaping\<close>

lemma unat_of_nat_16: "n < 65536 \<Longrightarrow> unat (word_of_nat n :: 16 word) = n"
  by (simp add: unat_of_nat)

lemma unat_hex_lt: "n < 16 \<Longrightarrow> unat (hex_digit n) = (if n < 10 then 0x30 + n else 0x41 + (n - 10))"
  unfolding hex_digit_def by (simp add: unat_of_nat_16 del: of_nat_add of_nat_diff)

lemma hex_value_hex_digit: "n < 16 \<Longrightarrow> hex_value (hex_digit n) = Some n"
  by (auto simp: hex_value_def word_le_nat_alt unat_hex_lt)

lemma hex_digit_unescaped: "n < 16 \<Longrightarrow> unescaped (hex_digit n)"
  by (auto simp: unescaped_def word_le_nat_alt unat_hex_lt)

lemma unescape_percent:
  "b < 256 \<Longrightarrow> unescape (percent b @ rest) = map_option ((#) (Octet b)) (unescape rest)"
proof -
  assume b: "b < 256"
  then have d: "b div 16 < 16" and m: "b mod 16 < 16" by simp_all
  have "16 * (b div 16) + b mod 16 = b" by simp
  then show ?thesis
    by (simp add: percent_def hex_value_hex_digit [OF d] hex_value_hex_digit [OF m])
qed

lemma unescape_percents:
  "\<forall>b \<in> set bs. b < 256 \<Longrightarrow>
   unescape (concat (map percent bs) @ rest) = map_option ((@) (map Octet bs)) (unescape rest)"
proof (induction bs)
  case Nil
  then show ?case by (simp add: option.map_ident)
next
  case (Cons b bs)
  then show ?case
    by (simp add: unescape_percent option.map_comp comp_def)
qed

lemma utf8_octets: "cp < 0x110000 \<Longrightarrow> \<forall>b \<in> set (utf8 cp). b < 256"
  by (auto simp: utf8_def)

lemma unescape_escape:
  "cp < 0x110000 \<Longrightarrow>
   unescape (escape cp @ rest) = map_option ((@) (map Octet (utf8 cp))) (unescape rest)"
  unfolding escape_def by (rule unescape_percents) (rule utf8_octets)

lemma unescaped_not_percent: "unescaped c \<Longrightarrow> c \<noteq> 0x25"
  by (auto simp: unescaped_def)

lemma unescape_unescaped:
  "unescaped c \<Longrightarrow> unescape (c # rest) = map_option ((#) (Lit c)) (unescape rest)"
  by (simp add: unescaped_not_percent)


lemma octets_of_map_Octet: "octets_of (map Octet bs) = Some bs"
  by (induction bs) simp_all

lemma decode_items_1:
  assumes "cp < 0x80"
  shows "decode_items (map Octet (utf8 cp) @ its) = map_option ((@) (utf16 cp)) (decode_items its)"
proof -
  have "(@) [word_of_nat cp :: 16 word] = (#) (word_of_nat cp)" by (rule ext) simp
  then show ?thesis
    using assms by (simp add: utf8_def utf16_def octets_needed_def)
qed

lemma decode_items_2:
  assumes "0x80 \<le> cp" and "cp < 0x800"
  shows "decode_items (map Octet (utf8 cp) @ its) = map_option ((@) (utf16 cp)) (decode_items its)"
proof -
  let ?b0 = "0xC0 + cp div 64" and ?b1 = "0x80 + cp mod 64"
  have u: "utf8 cp = [?b0, ?b1]" using assms by (simp add: utf8_def)
  have n: "octets_needed ?b0 = Some 2" using assms by (simp add: octets_needed_def)
  have "(?b0 - 0xC0) * 64 + (?b1 - 0x80) = cp" by simp
  then have d: "utf8_decode [?b0, ?b1] = Some cp"
    using assms by (simp add: utf8_decode_def continuation_def)
  show ?thesis
    unfolding u by (simp add: n d)
qed

lemma radix64_3:
  fixes cp :: nat
  shows "cp div 4096 * 4096 + cp div 64 mod 64 * 64 + cp mod 64 = cp"
proof -
  have lin: "\<And>A B Q M n :: nat. A * 64 + B = Q \<Longrightarrow> Q * 64 + M = n \<Longrightarrow> A * 4096 + B * 64 + M = n"
    by auto
  have a: "cp div 4096 = cp div 64 div 64" by (simp add: div_mult2_eq)
  have b: "cp div 64 div 64 * 64 + cp div 64 mod 64 = cp div 64" by (rule div_mult_mod_eq)
  have c: "cp div 64 * 64 + cp mod 64 = cp" by (rule div_mult_mod_eq)
  show ?thesis unfolding a by (rule lin [OF b c])
qed

lemma radix64_4:
  fixes cp :: nat
  shows "cp div 262144 * 262144 + cp div 4096 mod 64 * 4096 + cp div 64 mod 64 * 64 + cp mod 64 = cp"
proof -
  have lin: "\<And>A B Q M n :: nat. A * 64 + B = Q \<Longrightarrow> Q * 4096 + M = n
      \<Longrightarrow> A * 262144 + B * 4096 + M = n"
    by auto
  have a: "cp div 262144 = cp div 4096 div 64" by (simp add: div_mult2_eq)
  have b: "cp div 4096 div 64 * 64 + cp div 4096 mod 64 = cp div 4096" by (rule div_mult_mod_eq)
  have c: "cp div 4096 * 4096 + (cp div 64 mod 64 * 64 + cp mod 64) = cp"
    using radix64_3 [of cp] by (simp add: add.assoc)
  have "cp div 262144 * 262144 + cp div 4096 mod 64 * 4096 + (cp div 64 mod 64 * 64 + cp mod 64) = cp"
    unfolding a by (rule lin [OF b c])
  then show ?thesis by (simp add: add.assoc)
qed

lemma decode_items_3:
  assumes "0x800 \<le> cp" and "cp < 0x10000" and "\<not> (0xD800 \<le> cp \<and> cp \<le> 0xDFFF)"
  shows "decode_items (map Octet (utf8 cp) @ its) = map_option ((@) (utf16 cp)) (decode_items its)"
proof -
  let ?b0 = "0xE0 + cp div 4096" and ?b1 = "0x80 + cp div 64 mod 64" and ?b2 = "0x80 + cp mod 64"
  have u: "utf8 cp = [?b0, ?b1, ?b2]" using assms by (simp add: utf8_def)
  have n: "octets_needed ?b0 = Some 3" using assms by (simp add: octets_needed_def)
  have "(?b0 - 0xE0) * 4096 + (?b1 - 0x80) * 64 + (?b2 - 0x80) = cp"
    using radix64_3 [of cp] by simp
  then have d: "utf8_decode [?b0, ?b1, ?b2] = Some cp"
    using assms by (simp add: utf8_decode_def continuation_def)
  show ?thesis
    unfolding u by (simp add: n d)
qed

lemma decode_items_4:
  assumes "0x10000 \<le> cp" and "cp < 0x110000"
  shows "decode_items (map Octet (utf8 cp) @ its) = map_option ((@) (utf16 cp)) (decode_items its)"
proof -
  let ?b0 = "0xF0 + cp div 262144" and ?b1 = "0x80 + cp div 4096 mod 64"
    and ?b2 = "0x80 + cp div 64 mod 64" and ?b3 = "0x80 + cp mod 64"
  have u: "utf8 cp = [?b0, ?b1, ?b2, ?b3]" using assms by (simp add: utf8_def)
  have n: "octets_needed ?b0 = Some 4" using assms by (simp add: octets_needed_def)
  have "(?b0 - 0xF0) * 262144 + (?b1 - 0x80) * 4096 + (?b2 - 0x80) * 64 + (?b3 - 0x80) = cp"
    using radix64_4 [of cp] by simp
  then have d: "utf8_decode [?b0, ?b1, ?b2, ?b3] = Some cp"
    using assms by (simp add: utf8_decode_def continuation_def)
  show ?thesis
    unfolding u by (simp add: n d)
qed

lemma decode_items_utf8:
  assumes "scalar cp"
  shows "decode_items (map Octet (utf8 cp) @ its) = map_option ((@) (utf16 cp)) (decode_items its)"
proof -
  consider "cp < 0x80" | "0x80 \<le> cp \<and> cp < 0x800"
    | "0x800 \<le> cp \<and> cp < 0x10000" | "0x10000 \<le> cp"
    by linarith
  then show ?thesis
  proof cases
    case 1
    then show ?thesis by (rule decode_items_1)
  next
    case 2
    then show ?thesis by (simp add: decode_items_2)
  next
    case 3
    then show ?thesis using assms by (simp add: decode_items_3 scalar_def)
  next
    case 4
    then show ?thesis using assms by (simp add: decode_items_4 scalar_def)
  qed
qed


lemma unat_16_bound: "unat (c :: 16 word) < 65536"
  using unsigned_less [of c, where ?'a = nat] by simp

lemma scalar_unit:
  assumes "\<not> is_lead c" and "\<not> is_trail c"
  shows "scalar (unat c)"
  using assms unat_16_bound [of c]
  by (auto simp: scalar_def is_lead_def is_trail_def word_le_nat_alt)

lemma utf16_unit: "utf16 (unat (c :: 16 word)) = [c]"
  using unat_16_bound [of c] by (simp add: utf16_def)

lemma lead_bounds: "is_lead c \<Longrightarrow> 0xD800 \<le> unat c \<and> unat c \<le> 0xDBFF"
  by (simp add: is_lead_def word_le_nat_alt)

lemma trail_bounds: "is_trail d \<Longrightarrow> 0xDC00 \<le> unat d \<and> unat d \<le> 0xDFFF"
  by (simp add: is_trail_def word_le_nat_alt)

lemma pair_bounds:
  assumes "is_lead c" and "is_trail d"
  shows "0x10000 \<le> pair_code_point c d \<and> pair_code_point c d < 0x110000"
  using lead_bounds [OF assms(1)] trail_bounds [OF assms(2)]
  unfolding pair_code_point_def by arith

lemma scalar_pair:
  assumes "is_lead c" and "is_trail d"
  shows "scalar (pair_code_point c d)"
  using pair_bounds [OF assms] by (simp add: scalar_def)

lemma utf16_pair:
  assumes "is_lead c" and "is_trail d"
  shows "utf16 (pair_code_point c d) = [c, d]"
proof -
  let ?h = "unat c - 0xD800" and ?l = "unat d - 0xDC00"
  have l: "?l < 0x400" using trail_bounds [OF assms(2)] by arith
  have p: "pair_code_point c d - 0x10000 = ?h * 0x400 + ?l"
    by (simp add: pair_code_point_def)
  have "(?h * 0x400 + ?l) div 0x400 = ?h" using l by simp
  then have hi: "0xD800 + (pair_code_point c d - 0x10000) div 0x400 = unat c"
    using lead_bounds [OF assms(1)] by (simp only: p) simp
  have "(?h * 0x400 + ?l) mod 0x400 = ?l" using l by simp
  then have lo: "0xDC00 + (pair_code_point c d - 0x10000) mod 0x400 = unat d"
    using trail_bounds [OF assms(2)] by (simp only: p) simp
  have "\<not> pair_code_point c d < 0x10000" using pair_bounds [OF assms] by simp
  then show ?thesis
    by (simp only: utf16_def hi lo if_False) simp
qed

lemma decode_escape:
  assumes "scalar cp" and "unescape r = Some its" and "decode_items its = Some s"
  shows "\<exists>its'. unescape (escape cp @ r) = Some its' \<and> decode_items its' = Some (utf16 cp @ s)"
proof -
  have "cp < 0x110000" using assms(1) by (simp add: scalar_def)
  then have "unescape (escape cp @ r) = Some (map Octet (utf8 cp) @ its)"
    by (simp add: unescape_escape assms(2))
  moreover have "decode_items (map Octet (utf8 cp) @ its) = Some (utf16 cp @ s)"
    by (simp add: decode_items_utf8 [OF assms(1)] assms(3))
  ultimately show ?thesis by blast
qed

lemma encode_decode_items:
  "encodeURIComponent s = Inr e \<Longrightarrow>
   \<exists>its. unescape e = Some its \<and> decode_items its = Some s"
proof (induction s arbitrary: e rule: encodeURIComponent.induct)
  case 1
  then show ?case by simp
next
  case (2 c cs)
  show ?case
  proof (cases "unescaped c")
    case True
    with "2.prems" obtain r where r: "encodeURIComponent cs = Inr r" and e: "e = c # r"
      by (auto split: sum.splits)
    from "2.IH"(1) [OF True r] obtain its
      where u: "unescape r = Some its" and di: "decode_items its = Some cs" by blast
    have "unescape (c # r) = Some (Lit c # its)"
      unfolding unescape_unescaped [OF True] by (simp add: u)
    moreover have "decode_items (Lit c # its) = Some (c # cs)"
      by (simp add: di)
    ultimately show ?thesis
      unfolding e by blast
  next
    case False
    note esc = this
    show ?thesis
    proof (cases "is_trail c")
      case True
      with esc "2.prems" show ?thesis by simp
    next
      case False
      note nt = this
      show ?thesis
      proof (cases "is_lead c")
        case True
        with esc nt "2.prems" obtain d ds r
          where cs: "cs = d # ds" and d: "is_trail d"
            and r: "encodeURIComponent ds = Inr r"
            and e: "e = escape (pair_code_point c d) @ r"
          by (auto split: list.splits if_splits sum.splits)
        from "2.IH"(2) [OF esc nt True cs d r] obtain its
          where u: "unescape r = Some its" and di: "decode_items its = Some ds" by blast
        from decode_escape [OF scalar_pair [OF True d] u di]
        show ?thesis by (simp add: e cs utf16_pair [OF True d])
      next
        case False
        with esc nt "2.prems" obtain r
          where r: "encodeURIComponent cs = Inr r" and e: "e = escape (unat c) @ r"
          by (auto split: sum.splits)
        from "2.IH"(3) [OF esc nt False r] obtain its
          where u: "unescape r = Some its" and di: "decode_items its = Some cs" by blast
        from decode_escape [OF scalar_unit [OF False nt] u di]
        show ?thesis by (simp add: e utf16_unit)
      qed
    qed
  qed
qed

lemma decode_encode:
  "encodeURIComponent s = Inr e \<Longrightarrow> decodeURIComponent e = Inr s"
  using encode_decode_items [of s e] by (auto simp: decodeURIComponent_def)




lemma percent_alphabet:
  "b < 256 \<Longrightarrow> \<forall>c \<in> set (percent b). unescaped c \<or> c = 0x25"
  by (simp add: percent_def hex_digit_unescaped)

lemma escape_alphabet:
  assumes "cp < 0x110000"
  shows "\<forall>c \<in> set (escape cp). unescaped c \<or> c = 0x25"
  using utf8_octets [OF assms] percent_alphabet by (auto simp: escape_def)

lemma encode_alphabet:
  "encodeURIComponent s = Inr e \<Longrightarrow> \<forall>c \<in> set e. unescaped c \<or> c = 0x25"
proof (induction s arbitrary: e rule: encodeURIComponent.induct)
  case 1
  then show ?case by simp
next
  case (2 c cs)
  show ?case
  proof (cases "unescaped c")
    case True
    with "2.prems" obtain r where r: "encodeURIComponent cs = Inr r" and e: "e = c # r"
      by (auto split: sum.splits)
    from "2.IH"(1) [OF True r] True show ?thesis by (simp add: e)
  next
    case False
    note esc = this
    show ?thesis
    proof (cases "is_trail c")
      case True
      with esc "2.prems" show ?thesis by simp
    next
      case False
      note nt = this
      show ?thesis
      proof (cases "is_lead c")
        case True
        with esc nt "2.prems" obtain d ds r
          where cs: "cs = d # ds" and d: "is_trail d"
            and r: "encodeURIComponent ds = Inr r"
            and e: "e = escape (pair_code_point c d) @ r"
          by (auto split: list.splits if_splits sum.splits)
        have "pair_code_point c d < 0x110000" using pair_bounds [OF True d] by simp
        from escape_alphabet [OF this] "2.IH"(2) [OF esc nt True cs d r]
        show ?thesis by (auto simp: e)
      next
        case False
        with esc nt "2.prems" obtain r
          where r: "encodeURIComponent cs = Inr r" and e: "e = escape (unat c) @ r"
          by (auto split: sum.splits)
        have "unat c < 0x110000" using unat_16_bound [of c] by simp
        from escape_alphabet [OF this] "2.IH"(3) [OF esc nt False r]
        show ?thesis by (auto simp: e)
      qed
    qed
  qed
qed









lemma safe_plain:
  assumes "unescaped c \<or> c = 0x25"
  shows "c \<noteq> 0x2F" and "c \<noteq> 0x5C" and "c \<noteq> 0x3F" and "c \<noteq> 0x23"
    and "\<not> is_lead c" and "\<not> is_trail c" and "\<not> path_percent_encode_set c"
    and "\<not> c0_or_space c"
  using assms
  by (auto simp: unescaped_def is_lead_def is_trail_def path_percent_encode_set_def
      c0_or_space_def word_le_nat_alt word_less_nat_alt)

lemma url_path_safe:
  "\<forall>c \<in> set a. unescaped c \<or> c = 0x25 \<Longrightarrow> url_path cur (a @ rest) = url_path (cur @ a) rest"
proof (induction a arbitrary: cur)
  case Nil
  then show ?case by simp
next
  case (Cons c a)
  then have c: "unescaped c \<or> c = 0x25" and a: "\<forall>c \<in> set a. unescaped c \<or> c = 0x25"
    by simp_all
  have "url_path cur ((c # a) @ rest) = url_path (cur @ [c]) (a @ rest)"
    using safe_plain [OF c] by simp
  also have "\<dots> = url_path ((cur @ [c]) @ a) rest"
    using a by (rule Cons.IH)
  finally show ?case by simp
qed


lemma url_path_last:
  "\<forall>c \<in> set a. unescaped c \<or> c = 0x25 \<Longrightarrow> url_path [] a = [a]"
  using url_path_safe [of a "[]" "[]"] by simp

lemma tab_or_newline_c0: "tab_or_newline c \<Longrightarrow> c0_or_space c"
  by (auto simp: tab_or_newline_def c0_or_space_def)

lemma url_input_plain:
  assumes "\<forall>c \<in> set s. \<not> c0_or_space c"
  shows "url_input s = s"
proof -
  have d: "\<And>t. \<forall>c \<in> set t. \<not> c0_or_space c \<Longrightarrow> dropWhile c0_or_space t = t"
    by (simp add: dropWhile_eq_self_iff hd_in_set)
  have "dropWhile c0_or_space s = s" using assms by (rule d)
  moreover have "dropWhile c0_or_space (rev s) = rev s" using assms by (intro d) simp
  moreover have "filter (\<lambda>c. \<not> tab_or_newline c) s = s"
    using assms tab_or_newline_c0 by (auto simp: filter_id_conv)
  ultimately show ?thesis by (simp add: url_input_def)
qed

lemma single_dot_decode: "single_dot e \<Longrightarrow> decodeURIComponent e = Inr (lit ''.'')"
  unfolding single_dot_def
  by (elim disjE)
     (simp_all add: decodeURIComponent_def lit_def hex_value_def octets_needed_def)

lemma double_dot_decode: "double_dot e \<Longrightarrow> decodeURIComponent e = Inr (lit ''..'')"
  unfolding double_dot_def
  by (elim disjE)
     (simp_all add: decodeURIComponent_def lit_def hex_value_def octets_needed_def)

lemma encodeId_dot: "encodeId (lit ''.'') = Inr (lit ''.'')"
  by (simp add: encodeId_def lit_def unescaped_def)

lemma encodeId_dotdot: "encodeId (lit ''..'') = Inr (lit ''..'')"
  by (simp add: encodeId_def lit_def unescaped_def)

lemma encoded_dot_iff:
  assumes "encodeId s = Inr e"
  shows "single_dot e \<or> double_dot e \<longleftrightarrow> s = lit ''.'' \<or> s = lit ''..''"
proof
  assume "single_dot e \<or> double_dot e"
  then have "decodeURIComponent e = Inr (lit ''.'') \<or> decodeURIComponent e = Inr (lit ''..'')"
    using single_dot_decode double_dot_decode by blast
  moreover have "decodeURIComponent e = Inr s"
    using assms decode_encode by (simp add: encodeId_def)
  ultimately show "s = lit ''.'' \<or> s = lit ''..''" by auto
next
  assume "s = lit ''.'' \<or> s = lit ''..''"
  then show "single_dot e \<or> double_dot e"
    using assms encodeId_dot encodeId_dotdot
    by (auto simp: single_dot_def double_dot_def)
qed

lemma encoded_safe:
  "encodeId s = Inr e \<Longrightarrow> \<forall>c \<in> set e. unescaped c \<or> c = 0x25"
  using encode_alphabet [of s e] by (simp add: encodeId_def)

text \<open>
  An escaped id that is not \<open>.\<close> or \<open>..\<close> passes the URL parser unchanged as a path
  segment.
\<close>

lemma on_wire_segment:
  assumes "encodeId s = Inr e" and "s \<noteq> lit ''.''" and "s \<noteq> lit ''..''"
  shows "on_wire (0x2F # e) = 0x2F # e"
proof -
  have safe: "\<forall>c \<in> set e. unescaped c \<or> c = 0x25" using assms(1) by (rule encoded_safe)
  have nd: "\<not> single_dot e" "\<not> double_dot e"
    using encoded_dot_iff [OF assms(1)] assms(2,3) by auto
  have "\<forall>c \<in> set (0x2F # e). \<not> c0_or_space c"
    using safe safe_plain(8) by (auto simp: c0_or_space_def)
  then have "url_input (0x2F # e) = 0x2F # e" by (rule url_input_plain)
  then show ?thesis
    using nd by (simp add: on_wire_def wire_segments_def url_path_last [OF safe])
qed


lemma url_path_segments_from:
  "\<forall>c \<in> set r. unescaped c \<or> c = 0x25 \<or> c = 0x2F \<Longrightarrow>
   url_path cur r = segments_from cur r"
proof (induction r arbitrary: cur)
  case Nil
  then show ?case by simp
next
  case (Cons c r)
  then have r: "\<forall>c \<in> set r. unescaped c \<or> c = 0x25 \<or> c = 0x2F" by simp
  show ?case
  proof (cases "c = 0x2F")
    case True
    then show ?thesis using Cons.IH [OF r] by simp
  next
    case False
    then have "unescaped c \<or> c = 0x25" using Cons.prems by simp
    from safe_plain [OF this] False show ?thesis using Cons.IH [OF r] by simp
  qed
qed

lemma remove_dots_none:
  "\<forall>s \<in> set ss. \<not> single_dot s \<and> \<not> double_dot s \<Longrightarrow> remove_dots path ss = path @ ss"
  by (induction path ss rule: remove_dots.induct) simp_all

lemma concat_segments_from:
  "concat (map ((#) 0x2F) (segments_from cur r)) = 0x2F # cur @ r"
  by (induction r arbitrary: cur) simp_all

lemma on_wire_unchanged:
  assumes "\<forall>c \<in> set r. unescaped c \<or> c = 0x25 \<or> c = 0x2F"
    and "\<forall>s \<in> set (segments_from [] r). \<not> single_dot s \<and> \<not> double_dot s"
  shows "on_wire (0x2F # r) = 0x2F # r"
proof -
  have "\<forall>c \<in> set (0x2F # r). \<not> c0_or_space c"
    using assms(1) safe_plain(8) by (auto simp: c0_or_space_def)
  then have "url_input (0x2F # r) = 0x2F # r" by (rule url_input_plain)
  then have "wire_segments (0x2F # r) = segments_from [] r"
    using assms by (simp add: wire_segments_def url_path_segments_from remove_dots_none)
  then show ?thesis by (simp add: on_wire_def concat_segments_from)
qed

















end
